theory Spec2Isabelle
  imports Main "HOL-Library.AList"
begin

section \<open>Python values and built-in operations\<close>

text \<open>
  The request builder of \<^verbatim>\<open>tenable/sc/was_scan.py\<close> takes \<^verbatim>\<open>**kwargs: Any\<close>, so the
  model works on a universe of dynamically typed values: \<^verbatim>\<open>None\<close>, booleans, unbounded
  integers, strings, lists, tuples and dictionaries with string keys (the shape of a
  decoded JSON object). Floating-point numbers are outside this universe. A \<open>char\<close> stands
  for one code point below 256, so \<open>length\<close> counts what Python's \<^verbatim>\<open>len\<close> counts.
\<close>

datatype pyval =
    PNone
  | PBool bool
  | PInt int
  | PStr string
  | PList "pyval list"
  | PTuple "pyval list"
  | PDict "(string \<times> pyval) list"

text \<open>
  Every \<^verbatim>\<open>raise\<close> of the source and of the built-ins it calls is a value. \<open>FieldTypeError\<close>
  and \<open>UnexpectedValueError\<close> are the validation errors of \<^verbatim>\<open>_check\<close> and carry the name
  of the field; \<open>TypeError\<close> is the one a built-in raises (\<^verbatim>\<open>len(5)\<close>, \<^verbatim>\<open>None[0]\<close>).
\<close>

datatype error =
    KeyError pyval
  | IndexError
  | TypeError
  | FieldTypeError string
  | UnexpectedValueError string "string list"
  | ValueError string
  | TransportError string

definition bindE :: "error + 'a \<Rightarrow> ('a \<Rightarrow> error + 'b) \<Rightarrow> error + 'b" where
  "bindE m f = (case m of Inl e \<Rightarrow> Inl e | Inr x \<Rightarrow> f x)"

text \<open>A list comprehension: the elements are evaluated in order, the first raise ends it.\<close>

fun mapE :: "('a \<Rightarrow> error + 'b) \<Rightarrow> 'a list \<Rightarrow> error + 'b list" where
  "mapE f [] = Inr []"
| "mapE f (x # xs) =
     (case f x of
        Inl e \<Rightarrow> Inl e
      | Inr y \<Rightarrow> (case mapE f xs of Inl e \<Rightarrow> Inl e | Inr ys \<Rightarrow> Inr (y # ys)))"

text \<open>Truth value testing, as \<^verbatim>\<open>if x:\<close> and \<^verbatim>\<open>... if x else ...\<close> do it.\<close>

fun py_truthy :: "pyval \<Rightarrow> bool" where
  "py_truthy PNone = False"
| "py_truthy (PBool b) = b"
| "py_truthy (PInt i) = (i \<noteq> 0)"
| "py_truthy (PStr s) = (s \<noteq> [])"
| "py_truthy (PList xs) = (xs \<noteq> [])"
| "py_truthy (PTuple xs) = (xs \<noteq> [])"
| "py_truthy (PDict d) = (d \<noteq> [])"

text \<open>\<^verbatim>\<open>len(x)\<close>.\<close>

fun py_len :: "pyval \<Rightarrow> error + nat" where
  "py_len (PStr s) = Inr (length s)"
| "py_len (PList xs) = Inr (length xs)"
| "py_len (PTuple xs) = Inr (length xs)"
| "py_len (PDict d) = Inr (length d)"
| "py_len _ = Inl TypeError"

text \<open>\<^verbatim>\<open>for y in x\<close>: the elements a comprehension runs over.\<close>

fun py_iter :: "pyval \<Rightarrow> error + pyval list" where
  "py_iter (PStr s) = Inr (map (\<lambda>c. PStr [c]) s)"
| "py_iter (PList xs) = Inr xs"
| "py_iter (PTuple xs) = Inr xs"
| "py_iter (PDict d) = Inr (map (\<lambda>kv. PStr (fst kv)) d)"
| "py_iter _ = Inl TypeError"

text \<open>
  \<^verbatim>\<open>x[i]\<close> for an integer \<open>i\<close>: sequences count negative indices from the end and raise
  \<^verbatim>\<open>IndexError\<close> out of range; a dictionary of string keys has no integer key.
\<close>

definition seq_index :: "'a list \<Rightarrow> int \<Rightarrow> error + 'a" where
  "seq_index xs i =
     (if 0 \<le> i \<and> i < int (length xs) then Inr (xs ! nat i)
      else if i < 0 \<and> - int (length xs) \<le> i then Inr (xs ! nat (int (length xs) + i))
      else Inl IndexError)"

fun py_index :: "pyval \<Rightarrow> int \<Rightarrow> error + pyval" where
  "py_index (PStr s) i = bindE (seq_index s i) (\<lambda>c. Inr (PStr [c]))"
| "py_index (PList xs) i = seq_index xs i"
| "py_index (PTuple xs) i = seq_index xs i"
| "py_index (PDict d) i = Inl (KeyError (PInt i))"
| "py_index _ i = Inl TypeError"

text \<open>\<^verbatim>\<open>x[k]\<close> for a string \<open>k\<close>: only a dictionary can be subscripted by a string.\<close>

fun py_key :: "pyval \<Rightarrow> string \<Rightarrow> error + pyval" where
  "py_key (PDict d) k =
     (case map_of d k of None \<Rightarrow> Inl (KeyError (PStr k)) | Some v \<Rightarrow> Inr v)"
| "py_key _ k = Inl TypeError"

subsection \<open>\<^verbatim>\<open>str\<close> and \<^verbatim>\<open>repr\<close>\<close>

definition digit_char :: "nat \<Rightarrow> char" where
  "digit_char d = ''0123456789abcdef'' ! d"

fun dec_nat :: "nat \<Rightarrow> string" where
  "dec_nat n = (if n < 10 then [digit_char n] else dec_nat (n div 10) @ [digit_char (n mod 10)])"

declare dec_nat.simps [simp del]

definition dec_int :: "int \<Rightarrow> string" where
  "dec_int i = (if i < 0 then CHR ''-'' # dec_nat (nat (- i)) else dec_nat (nat i))"

text \<open>\<^verbatim>\<open>sep.join(xs)\<close> on strings.\<close>

fun join_str :: "string \<Rightarrow> string list \<Rightarrow> string" where
  "join_str sep [] = []"
| "join_str sep [x] = x"
| "join_str sep (x # y # ys) = x @ sep @ join_str sep (y # ys)"

definition py_printable :: "char \<Rightarrow> bool" where
  "py_printable c =
     (let n = (of_char c :: nat)
      in (32 \<le> n \<and> n \<le> 126) \<or> (161 \<le> n \<and> n \<le> 255 \<and> n \<noteq> 173))"

definition repr_char :: "char \<Rightarrow> char \<Rightarrow> string" where
  "repr_char q c =
     (if c = CHR 0x5C then [CHR 0x5C, CHR 0x5C]
      else if c = q then [CHR 0x5C, q]
      else if c = CHR 0x09 then [CHR 0x5C, CHR ''t'']
      else if c = CHR 0x0A then [CHR 0x5C, CHR ''n'']
      else if c = CHR 0x0D then [CHR 0x5C, CHR ''r'']
      else if py_printable c then [c]
      else [CHR 0x5C, CHR ''x'', digit_char (of_char c div 16), digit_char (of_char c mod 16)])"

definition repr_str :: "string \<Rightarrow> string" where
  "repr_str s =
     (let q = (if CHR 0x27 \<in> set s \<and> CHR 0x22 \<notin> set s then CHR 0x22 else CHR 0x27)
      in q # concat (map (repr_char q) s) @ [q])"

fun py_repr :: "pyval \<Rightarrow> string" where
  "py_repr PNone = ''None''"
| "py_repr (PBool b) = (if b then ''True'' else ''False'')"
| "py_repr (PInt i) = dec_int i"
| "py_repr (PStr s) = repr_str s"
| "py_repr (PList xs) = ''['' @ join_str '', '' (map py_repr xs) @ '']''"
| "py_repr (PTuple xs) =
     (if length xs = 1 then ''('' @ join_str '', '' (map py_repr xs) @ '',)''
      else ''('' @ join_str '', '' (map py_repr xs) @ '')'')"
| "py_repr (PDict d) =
     ''{'' @ join_str '', '' (map (\<lambda>kv. repr_str (fst kv) @ '': '' @ py_repr (snd kv)) d) @ ''}''"

text \<open>\<^verbatim>\<open>str(x)\<close>, also what an f-string field \<^verbatim>\<open>{x}\<close> formats to.\<close>

definition py_str :: "pyval \<Rightarrow> string" where
  "py_str v = (case v of PStr s \<Rightarrow> s | _ \<Rightarrow> py_repr v)"

section \<open>The validation helper\<close>

datatype pytype = TStr | TInt

text \<open>
  \<^verbatim>\<open>self._check(name, obj, expected_type, choices=None)\<close> is inherited from
  \<^verbatim>\<open>tenable.sc.base.SCEndpoint\<close>, which is not among the source files. The builder and the
  client methods therefore take the helper as a parameter \<open>chk\<close>.
\<close>

type_synonym checker = "string \<Rightarrow> pyval \<Rightarrow> pytype \<Rightarrow> string list option \<Rightarrow> error + pyval"

fun has_type :: "pytype \<Rightarrow> pyval \<Rightarrow> bool" where
  "has_type TStr (PStr s) = True"
| "has_type TInt (PInt i) = True"
| "has_type _ _ = False"

definition check :: checker where
  \<comment> \<open>Modelled from the spec: the helper \<^verbatim>\<open>_check\<close> of the base endpoint class, which is
      missing from the sources. Spec 4.1: a field is "validated to be of string type;
      passed through unchanged"; an enumerated field is "validated against a fixed closed
      set of permitted values; an out-of-set value fails with a validation error naming
      the field and the allowed set". Spec 7: validation errors (bad type, bad enum value)
      "must name the offending field".\<close>
  "check name obj expected_type choices =
     (if \<not> has_type expected_type obj then Inl (FieldTypeError name)
      else case choices of
             None \<Rightarrow> Inr obj
           | Some cs \<Rightarrow>
               if obj \<in> set (map PStr cs) then Inr obj
               else Inl (UnexpectedValueError name cs))"

text \<open>The field an error names, if it names one.\<close>

fun error_field :: "error \<Rightarrow> string option" where
  "error_field (FieldTypeError name) = Some name"
| "error_field (UnexpectedValueError name cs) = Some name"
| "error_field (KeyError (PStr k)) = Some k"
| "error_field _ = None"

text \<open>
  What the code of this file relies on when it calls the helper: a value of the expected
  type (and, with choices, among them) comes back unchanged, every other value is
  refused with an error that names the field.
\<close>

definition accepts :: "pytype \<Rightarrow> string list option \<Rightarrow> pyval \<Rightarrow> bool" where
  "accepts ty choices obj =
     (has_type ty obj \<and> (case choices of None \<Rightarrow> True | Some cs \<Rightarrow> obj \<in> set (map PStr cs)))"

definition validator :: "checker \<Rightarrow> bool" where
  "validator chk =
     (\<forall>name obj ty choices.
        (accepts ty choices obj \<longrightarrow> chk name obj ty choices = Inr obj) \<and>
        (\<not> accepts ty choices obj \<longrightarrow>
           (\<exists>e. chk name obj ty choices = Inl e \<and> error_field e = Some name)))"

section \<open>The request builder\<close>

text \<open>
  \<^verbatim>\<open>**kwargs\<close> is a dictionary from argument names to values; the builder only looks keys
  up in it. The request is a Python \<^verbatim>\<open>dict\<close>, kept as an association list in insertion
  order; \<^verbatim>\<open>request[k] = v\<close> is \<open>AList.update k v\<close>.
\<close>

type_synonym kwargs = "string \<Rightarrow> pyval option"
type_synonym request = "(string \<times> pyval) list"

definition to_boolean_string :: "pyval \<Rightarrow> string" where
  "to_boolean_string boolean_value = (if py_truthy boolean_value then ''true'' else ''false'')"

text \<open>
  Each \<^verbatim>\<open>if\<close> block of \<^verbatim>\<open>_build_creation_or_update_request\<close> either raises, leaves the
  request alone (\<open>Inr None\<close>) or assigns one key (\<open>Inr (Some v)\<close>). The blocks follow in
  the order of the source.
\<close>

definition assigned :: "error + pyval \<Rightarrow> error + pyval option" where
  "assigned m = bindE m (\<lambda>v. Inr (Some v))"

definition name_field :: "checker \<Rightarrow> kwargs \<Rightarrow> error + pyval option" where
  "name_field chk kwargs =
     (case kwargs ''name'' of
        None \<Rightarrow> Inl (KeyError (PStr ''name''))
      | Some v \<Rightarrow> if py_truthy v then assigned (chk ''name'' v TStr None) else Inr None)"

definition type_field :: "checker \<Rightarrow> kwargs \<Rightarrow> error + pyval option" where
  "type_field chk kwargs =
     (case kwargs ''type'' of
        None \<Rightarrow> Inr None
      | Some v \<Rightarrow> assigned (chk ''type'' v TStr None))"

definition description_field :: "checker \<Rightarrow> kwargs \<Rightarrow> error + pyval option" where
  "description_field chk kwargs =
     (case kwargs ''description'' of
        None \<Rightarrow> Inr None
      | Some v \<Rightarrow> assigned (chk ''description'' v TStr None))"

definition repository_field :: "kwargs \<Rightarrow> error + pyval option" where
  "repository_field kwargs =
     (case kwargs ''repository_id'' of
        None \<Rightarrow> Inr None
      | Some v \<Rightarrow> Inr (Some (PDict [(''id'', PStr (py_str v))])))"

definition zone_field :: "kwargs \<Rightarrow> error + pyval option" where
  "zone_field kwargs =
     (case kwargs ''zone_id'' of
        None \<Rightarrow> Inr None
      | Some v \<Rightarrow> Inr (Some (PDict [(''id'', PStr (py_str v))])))"

definition dhcpTracking_field :: "kwargs \<Rightarrow> error + pyval option" where
  "dhcpTracking_field kwargs =
     (case kwargs ''dhcpTracking'' of
        None \<Rightarrow> Inr None
      | Some v \<Rightarrow> Inr (Some (PStr (to_boolean_string v))))"

definition classifyMitigatedAge_field :: "kwargs \<Rightarrow> error + pyval option" where
  "classifyMitigatedAge_field kwargs =
     (case kwargs ''classifyMitigatedAge'' of
        None \<Rightarrow> Inr None
      | Some v \<Rightarrow> Inr (Some (PStr (py_str v))))"

definition schedule_types :: "string list" where
  "schedule_types = [''ical'', ''never'', ''rollover'', ''template'']"

definition schedule_field :: "checker \<Rightarrow> kwargs \<Rightarrow> error + pyval option" where
  "schedule_field chk kwargs =
     (case kwargs ''schedule_type'' of
        None \<Rightarrow> Inr None
      | Some v \<Rightarrow>
          bindE (chk ''schedule_type'' v TStr (Some schedule_types))
            (\<lambda>t. Inr (Some (PDict [(''type'', t)]))))"

definition report_sources :: "string list" where
  "report_sources = [''cumulative'', ''patched'', ''individual'', ''lce'', ''archive'', ''mobile'']"

definition report_entry :: "checker \<Rightarrow> pyval \<Rightarrow> error + pyval" where
  "report_entry chk report =
     bindE (py_index report 0) (\<lambda>r0.
     bindE (chk ''report_id'' r0 TInt None) (\<lambda>rid.
     bindE (py_index report 1) (\<lambda>r1.
     bindE (chk ''reportSource'' r1 TStr (Some report_sources)) (\<lambda>src.
     Inr (PDict [(''id'', rid), (''reportSource'', src)])))))"

definition asset_entry :: "checker \<Rightarrow> pyval \<Rightarrow> error + pyval" where
  "asset_entry chk asset = bindE (chk ''asset'' asset TInt None) (\<lambda>a. Inr (PDict [(''id'', a)]))"

definition credential_entry :: "checker \<Rightarrow> pyval \<Rightarrow> error + pyval" where
  "credential_entry chk credential =
     bindE (chk ''credentials'' credential TInt None) (\<lambda>c. Inr (PDict [(''id'', c)]))"

text \<open>
  The three collection blocks share one shape: \<^verbatim>\<open>if len(xs) > 0: request[k] = [... for x
  in xs]\<close>.
\<close>

definition collection :: "(pyval \<Rightarrow> error + pyval) \<Rightarrow> pyval \<Rightarrow> error + pyval option" where
  "collection entry xs =
     bindE (py_len xs) (\<lambda>n.
       if n > 0 then
         bindE (py_iter xs) (\<lambda>items.
         bindE (mapE entry items) (\<lambda>ys. Inr (Some (PList ys))))
       else Inr None)"

definition reports_field :: "checker \<Rightarrow> kwargs \<Rightarrow> error + pyval option" where
  "reports_field chk kwargs =
     (case kwargs ''reports'' of
        None \<Rightarrow> Inr None
      | Some reports \<Rightarrow> collection (report_entry chk) reports)"

definition assets_field :: "checker \<Rightarrow> kwargs \<Rightarrow> error + pyval option" where
  "assets_field chk kwargs =
     (case kwargs ''assets'' of
        None \<Rightarrow> Inr None
      | Some assets \<Rightarrow> collection (asset_entry chk) assets)"

definition credentials_field :: "checker \<Rightarrow> kwargs \<Rightarrow> error + pyval option" where
  "credentials_field chk kwargs =
     (case kwargs ''credentials'' of
        None \<Rightarrow> Inr None
      | Some credentials \<Rightarrow> collection (credential_entry chk) credentials)"

definition emailOnLaunch_field :: "kwargs \<Rightarrow> error + pyval option" where
  "emailOnLaunch_field kwargs =
     (case kwargs ''emailOnLaunch'' of
        None \<Rightarrow> Inr None
      | Some v \<Rightarrow> Inr (Some (PStr (to_boolean_string v))))"

definition emailOnFinish_field :: "kwargs \<Rightarrow> error + pyval option" where
  "emailOnFinish_field kwargs =
     (case kwargs ''emailOnFinish'' of
        None \<Rightarrow> Inr None
      | Some v \<Rightarrow> Inr (Some (PStr (to_boolean_string v))))"

definition timeout_actions :: "string list" where
  "timeout_actions = [''discard'', ''import'', ''rollover'']"

definition timeoutAction_field :: "checker \<Rightarrow> kwargs \<Rightarrow> error + pyval option" where
  "timeoutAction_field chk kwargs =
     (case kwargs ''timeoutAction'' of
        None \<Rightarrow> Inr None
      | Some v \<Rightarrow> assigned (chk ''timeoutAction'' v TStr (Some timeout_actions)))"

definition scanningVirtualHosts_field :: "kwargs \<Rightarrow> error + pyval option" where
  "scanningVirtualHosts_field kwargs =
     (case kwargs ''scanningVirtualHosts'' of
        None \<Rightarrow> Inr None
      | Some v \<Rightarrow> Inr (Some (PStr (to_boolean_string v))))"

definition rollover_types :: "string list" where
  "rollover_types = [''nextDay'', ''template'']"

definition rolloverType_field :: "checker \<Rightarrow> kwargs \<Rightarrow> error + pyval option" where
  "rolloverType_field chk kwargs =
     (case kwargs ''rolloverType'' of
        None \<Rightarrow> Inr None
      | Some v \<Rightarrow> assigned (chk ''rolloverType'' v TStr (Some rollover_types)))"

definition urlList_field :: "checker \<Rightarrow> kwargs \<Rightarrow> error + pyval option" where
  "urlList_field chk kwargs =
     (case kwargs ''urlList'' of
        None \<Rightarrow> Inr None
      | Some v \<Rightarrow> assigned (chk ''urlList'' v TStr None))"

definition maxScanTime_field :: "kwargs \<Rightarrow> error + pyval option" where
  "maxScanTime_field kwargs =
     (case kwargs ''maxScanTime'' of
        None \<Rightarrow> Inr None
      | Some v \<Rightarrow> Inr (Some (PStr (py_str v))))"

definition request_fields :: "checker \<Rightarrow> kwargs \<Rightarrow> (string \<times> (error + pyval option)) list" where
  "request_fields chk kwargs =
     [(''name'', name_field chk kwargs),
      (''type'', type_field chk kwargs),
      (''description'', description_field chk kwargs),
      (''repository'', repository_field kwargs),
      (''zone'', zone_field kwargs),
      (''dhcpTracking'', dhcpTracking_field kwargs),
      (''classifyMitigatedAge'', classifyMitigatedAge_field kwargs),
      (''schedule'', schedule_field chk kwargs),
      (''reports'', reports_field chk kwargs),
      (''assets'', assets_field chk kwargs),
      (''credentials'', credentials_field chk kwargs),
      (''emailOnLaunch'', emailOnLaunch_field kwargs),
      (''emailOnFinish'', emailOnFinish_field kwargs),
      (''timeoutAction'', timeoutAction_field chk kwargs),
      (''scanningVirtualHosts'', scanningVirtualHosts_field kwargs),
      (''rolloverType'', rolloverType_field chk kwargs),
      (''urlList'', urlList_field chk kwargs),
      (''maxScanTime'', maxScanTime_field kwargs)]"

text \<open>Running the blocks on a request: the first raise leaves the function.\<close>

fun assign_all :: "(string \<times> (error + pyval option)) list \<Rightarrow> request \<Rightarrow> error + request" where
  "assign_all [] request = Inr request"
| "assign_all ((k, m) # fs) request =
     (case m of
        Inl e \<Rightarrow> Inl e
      | Inr None \<Rightarrow> assign_all fs request
      | Inr (Some v) \<Rightarrow> assign_all fs (AList.update k v request))"

definition build_creation_or_update_request :: "checker \<Rightarrow> kwargs \<Rightarrow> error + request" where
  "build_creation_or_update_request chk kwargs = assign_all (request_fields chk kwargs) []"

section \<open>The client methods\<close>

text \<open>
  The HTTP client \<^verbatim>\<open>self._api\<close> is an external collaborator: a function from the request
  to what \<^verbatim>\<open>.json()\<close> of its response decodes to, or to the error the transport raises.
  Every call is appended to the list of requests sent, so that "no request is sent" is a
  statement about that list.
\<close>

datatype http_verb = GET | POST | PATCH | DELETE

record http_request =
  verb :: http_verb
  path :: string
  params :: "(string \<times> pyval) list option"
  json :: "pyval option"

type_synonym transport = "http_request \<Rightarrow> error + pyval"

definition api_route :: string where
  "api_route = ''wasScan''"

definition send :: "transport \<Rightarrow> http_request \<Rightarrow> http_request list \<Rightarrow> (error + pyval) \<times> http_request list" where
  "send api rq sent = (api rq, sent @ [rq])"

text \<open>\<^verbatim>\<open>self._api.verb(...).json()['response']\<close>\<close>

definition send_unwrapped :: "transport \<Rightarrow> http_request \<Rightarrow> http_request list \<Rightarrow> (error + pyval) \<times> http_request list" where
  "send_unwrapped api rq sent =
     (case send api rq sent of (body, sent') \<Rightarrow> (bindE body (\<lambda>b. py_key b ''response''), sent'))"

definition create :: "transport \<Rightarrow> checker \<Rightarrow> kwargs \<Rightarrow> http_request list \<Rightarrow> (error + pyval) \<times> http_request list" where
  "create api chk kwargs sent =
     (case build_creation_or_update_request chk kwargs of
        Inl e \<Rightarrow> (Inl e, sent)
      | Inr request \<Rightarrow>
          send_unwrapped api
            \<lparr>verb = POST, path = api_route, params = None, json = Some (PDict request)\<rparr> sent)"

definition py_join :: "string \<Rightarrow> pyval list \<Rightarrow> error + pyval" where
  "py_join sep items =
     (if \<forall>x \<in> set items. has_type TStr x
      then Inr (PStr (join_str sep (map py_str items)))
      else Inl TypeError)"

definition fields_params :: "checker \<Rightarrow> pyval \<Rightarrow> error + (string \<times> pyval) list" where
  "fields_params chk flds =
     (if py_truthy flds then
        bindE (py_iter flds) (\<lambda>fs.
        bindE (mapE (\<lambda>f. chk ''fields'' f TStr None) fs) (\<lambda>string_fields.
        bindE (py_join '','' string_fields) (\<lambda>joined.
        Inr [(''fields'', joined)])))
      else Inr [])"

definition list_scans :: "transport \<Rightarrow> checker \<Rightarrow> pyval \<Rightarrow> http_request list \<Rightarrow> (error + pyval) \<times> http_request list" where
  "list_scans api chk flds sent =
     (case fields_params chk flds of
        Inl e \<Rightarrow> (Inl e, sent)
      | Inr ps \<Rightarrow>
          send_unwrapped api
            \<lparr>verb = GET, path = api_route, params = Some ps, json = None\<rparr> sent)"

definition details :: "transport \<Rightarrow> checker \<Rightarrow> pyval \<Rightarrow> pyval \<Rightarrow> http_request list \<Rightarrow> (error + pyval) \<times> http_request list" where
  "details api chk scan_id flds sent =
     (case fields_params chk flds of
        Inl e \<Rightarrow> (Inl e, sent)
      | Inr ps \<Rightarrow>
          send_unwrapped api
            \<lparr>verb = GET, path = api_route @ ''/'' @ py_str scan_id, params = Some ps, json = None\<rparr>
            sent)"

definition edit :: "transport \<Rightarrow> checker \<Rightarrow> pyval \<Rightarrow> kwargs \<Rightarrow> http_request list \<Rightarrow> (error + pyval) \<times> http_request list" where
  "edit api chk scan_id kwargs sent =
     (case build_creation_or_update_request chk kwargs of
        Inl e \<Rightarrow> (Inl e, sent)
      | Inr request \<Rightarrow>
          send_unwrapped api
            \<lparr>verb = PATCH, path = api_route @ ''/'' @ py_str scan_id, params = None,
             json = Some (PDict request)\<rparr> sent)"

definition delete :: "transport \<Rightarrow> pyval \<Rightarrow> http_request list \<Rightarrow> (error + pyval) \<times> http_request list" where
  "delete api scan_id sent =
     send api \<lparr>verb = DELETE, path = api_route @ ''/'' @ py_str scan_id, params = None, json = None\<rparr>
       sent"

definition copy_request :: "checker \<Rightarrow> pyval \<Rightarrow> pyval \<Rightarrow> pyval \<Rightarrow> error + http_request" where
  "copy_request chk scan_id scan_uuid name =
     bindE (chk ''name'' name TStr None) (\<lambda>n.
       if py_truthy scan_id then
         bindE (chk ''scan_id'' scan_id TInt None) (\<lambda>i.
           Inr \<lparr>verb = POST, path = api_route @ ''/'' @ py_str scan_id @ ''/copy'', params = None,
                json = Some (PDict [(''name'', n), (''targetUser'', PDict [(''id'', i)])])\<rparr>)
       else
         bindE (chk ''scan_uuid'' scan_uuid TStr None) (\<lambda>u.
           Inr \<lparr>verb = POST, path = api_route @ ''/'' @ py_str scan_uuid @ ''/copy'', params = None,
                json = Some (PDict [(''name'', n), (''targetUser'', PDict [(''uuid'', u)])])\<rparr>))"

definition copy :: "transport \<Rightarrow> checker \<Rightarrow> pyval \<Rightarrow> pyval \<Rightarrow> pyval \<Rightarrow> http_request list \<Rightarrow> (error + pyval) \<times> http_request list" where
  "copy api chk scan_id scan_uuid name sent =
     (if (scan_id \<noteq> PNone \<and> scan_uuid \<noteq> PNone) \<or> (scan_id = PNone \<and> scan_uuid = PNone)
      then (Inl (ValueError ''Exactly one of these [scan_id, scan_uuid] should be found.''), sent)
      else case copy_request chk scan_id scan_uuid name of
             Inl e \<Rightarrow> (Inl e, sent)
           | Inr rq \<Rightarrow> send_unwrapped api rq sent)"

section \<open>The recognised arguments\<close>

text \<open>
  The keys the builder looks up in \<^verbatim>\<open>kwargs\<close>, and for each key of the request the
  argument it is built from.
\<close>

definition recognized_keys :: "string list" where
  "recognized_keys =
     [''name'', ''type'', ''description'', ''repository_id'', ''zone_id'', ''dhcpTracking'',
      ''classifyMitigatedAge'', ''schedule_type'', ''reports'', ''assets'', ''credentials'',
      ''emailOnLaunch'', ''emailOnFinish'', ''timeoutAction'', ''scanningVirtualHosts'',
      ''rolloverType'', ''urlList'', ''maxScanTime'']"

definition source_key :: "string \<Rightarrow> string" where
  "source_key k =
     (if k = ''repository'' then ''repository_id''
      else if k = ''zone'' then ''zone_id''
      else if k = ''schedule'' then ''schedule_type''
      else k)"

section \<open>Reading a decimal string\<close>

text \<open>
  The inverse of \<open>dec_int\<close>, to say that \<open>dec_int\<close> is the decimal form: the value of a
  string of digits, most significant first, with an optional leading minus sign.
\<close>

definition digit_value :: "char \<Rightarrow> nat" where
  "digit_value c = of_char c - 48"

definition dec_value :: "string \<Rightarrow> nat" where
  "dec_value s = foldl (\<lambda>a c. 10 * a + digit_value c) 0 s"

definition int_of_dec :: "string \<Rightarrow> int" where
  "int_of_dec s =
     (case s of
        [] \<Rightarrow> 0
      | c # cs \<Rightarrow> if c = CHR ''-'' then - int (dec_value cs) else int (dec_value s))"

section \<open>Refused values\<close>

text \<open>
  The error with which the helper of the spec refuses a value for an enumerated string
  field: a string outside the choices is an unexpected value, anything else has the
  wrong type.
\<close>

definition enum_error :: "string \<Rightarrow> string list \<Rightarrow> pyval \<Rightarrow> error" where
  "enum_error name cs v =
     (if has_type TStr v then UnexpectedValueError name cs else FieldTypeError name)"

text \<open>A report as the docstring of \<^verbatim>\<open>create\<close> describes it: a tuple of an id and a source.\<close>

definition report_tuple :: "int \<times> string \<Rightarrow> pyval" where
  "report_tuple p = PTuple [PInt (fst p), PStr (snd p)]"

text \<open>The object the builder makes of such a report.\<close>

definition report_object :: "int \<times> string \<Rightarrow> pyval" where
  "report_object p = PDict [(''id'', PInt (fst p)), (''reportSource'', PStr (snd p))]"

section \<open>Sample collaborators\<close>

text \<open>A server that answers every request with the same enveloped body.\<close>

definition ok_api :: transport where
  "ok_api rq = Inr (PDict [(''response'', PStr ''done''), (''error_code'', PInt 0)])"

text \<open>A server whose answer depends on the request: it reports the path it was asked for.\<close>

definition path_api :: transport where
  "path_api rq = Inr (PDict [(''response'', PStr (path rq)), (''error_code'', PInt 0)])"

section \<open>Properties of the helper, the built-ins and the builder\<close>

subsection \<open>The validation helper\<close>

lemma accepts_check: "check name obj ty choices = (if accepts ty choices obj then Inr obj else Inl (if has_type ty obj then UnexpectedValueError name (the choices) else FieldTypeError name))"
  by (auto simp: check_def accepts_def split: option.splits)

lemma validator_check: "validator check"
  unfolding validator_def by (auto simp: accepts_check)

lemma validator_accept:
  "validator chk \<Longrightarrow> accepts ty choices obj \<Longrightarrow> chk name obj ty choices = Inr obj"
  by (simp add: validator_def)

lemma validator_Inr:
  assumes "validator chk" "chk name obj ty choices = Inr v"
  shows "v = obj \<and> accepts ty choices obj"
proof (cases "accepts ty choices obj")
  case True
  with assms show ?thesis by (simp add: validator_def)
next
  case False
  with assms(1) obtain e where "chk name obj ty choices = Inl e"
    unfolding validator_def by blast
  with assms(2) show ?thesis by simp
qed

lemma accepts_int: "accepts TInt None v \<Longrightarrow> \<exists>n. v = PInt n"
  by (cases v) (auto simp: accepts_def)

lemma accepts_choice: "accepts TStr (Some cs) v \<longleftrightarrow> (\<exists>s. v = PStr s \<and> s \<in> set cs)"
  by (cases v) (auto simp: accepts_def)

lemma check_bind_Inr:
  assumes "bindE (check name v TStr (Some cs)) f = Inr out"
  shows "(\<exists>s. v = PStr s \<and> s \<in> set cs) \<and> f v = Inr out"
proof (cases "accepts TStr (Some cs) v")
  case True
  then have c: "check name v TStr (Some cs) = Inr v" by (simp add: accepts_check)
  from True accepts_choice [of cs v] have "\<exists>s. v = PStr s \<and> s \<in> set cs" by blast
  with assms c show ?thesis by (simp add: bindE_def)
next
  case False
  then obtain e where "check name v TStr (Some cs) = Inl e" by (simp add: accepts_check)
  with assms show ?thesis by (simp add: bindE_def)
qed

lemma check_refuses:
  "v \<notin> PStr ` set cs \<Longrightarrow> check name v TStr (Some cs) = Inl (enum_error name cs v)"
  by (auto simp: check_def enum_error_def)

lemma error_field_enum: "error_field (enum_error name cs v) = Some name"
  by (simp add: enum_error_def)

subsection \<open>Decimal strings\<close>

lemma digit_value_digit_char: "d < 10 \<Longrightarrow> digit_value (digit_char d) = d"
proof -
  assume "d < 10"
  then have "d = 0 \<or> d = 1 \<or> d = 2 \<or> d = 3 \<or> d = 4 \<or> d = 5 \<or> d = 6 \<or> d = 7 \<or> d = 8 \<or> d = 9"
    by arith
  then show ?thesis
    by (elim disjE) (simp_all add: digit_value_def digit_char_def)
qed

lemma digit_char_not_minus: "d < 10 \<Longrightarrow> digit_char d \<noteq> CHR ''-''"
proof -
  assume "d < 10"
  then have "d = 0 \<or> d = 1 \<or> d = 2 \<or> d = 3 \<or> d = 4 \<or> d = 5 \<or> d = 6 \<or> d = 7 \<or> d = 8 \<or> d = 9"
    by arith
  then show ?thesis
    by (elim disjE) (simp_all add: digit_char_def)
qed

lemma dec_value_snoc: "dec_value (s @ [c]) = 10 * dec_value s + digit_value c"
  by (simp add: dec_value_def)

lemma dec_value_dec_nat: "dec_value (dec_nat n) = n"
proof (induction n rule: dec_nat.induct)
  case (1 n)
  show ?case
  proof (cases "n < 10")
    case True
    then show ?thesis
      by (simp add: dec_nat.simps [of n] dec_value_def digit_value_digit_char)
  next
    case False
    with "1.IH" have "dec_value (dec_nat (n div 10)) = n div 10" by simp
    with False show ?thesis
      by (simp add: dec_nat.simps [of n] dec_value_snoc digit_value_digit_char)
  qed
qed

lemma dec_nat_first: "\<exists>c cs. dec_nat n = c # cs \<and> c \<noteq> CHR ''-''"
proof (induction n rule: dec_nat.induct)
  case (1 n)
  show ?case
  proof (cases "n < 10")
    case True
    then show ?thesis
      by (simp add: dec_nat.simps [of n] digit_char_not_minus)
  next
    case False
    with "1.IH" obtain c cs where "dec_nat (n div 10) = c # cs" "c \<noteq> CHR ''-''" by auto
    with False show ?thesis
      by (simp add: dec_nat.simps [of n])
  qed
qed

lemma int_of_dec_dec_int: "int_of_dec (dec_int i) = i"
proof (cases "i < 0")
  case True
  then show ?thesis
    by (simp add: dec_int_def int_of_dec_def dec_value_dec_nat)
next
  case False
  obtain c cs where d: "dec_nat (nat i) = c # cs" "c \<noteq> CHR ''-''"
    using dec_nat_first by blast
  have "dec_value (c # cs) = nat i" using dec_value_dec_nat [of "nat i"] d(1) by simp
  with False d show ?thesis
    by (simp add: dec_int_def int_of_dec_def)
qed

lemma py_str_int: "py_str (PInt n) = dec_int n"
  by (simp add: py_str_def)

subsection \<open>Running the blocks\<close>

lemma assign_all_untouched:
  "assign_all fs r = Inr r' \<Longrightarrow> k \<notin> fst ` set fs \<Longrightarrow> map_of r' k = map_of r k"
proof (induction fs arbitrary: r)
  case Nil
  then show ?case by simp
next
  case (Cons f fs)
  obtain k' m where f: "f = (k', m)" by (cases f)
  from Cons.prems have k: "k \<noteq> k'" "k \<notin> fst ` set fs" by (auto simp: f)
  show ?case
  proof (cases m)
    case (Inl e)
    with Cons.prems f show ?thesis by simp
  next
    case (Inr ov)
    show ?thesis
    proof (cases ov)
      case None
      with Cons.prems f Inr have "assign_all fs r = Inr r'" by simp
      then show ?thesis using Cons.IH k by blast
    next
      case (Some v)
      with Cons.prems f Inr have "assign_all fs (AList.update k' v r) = Inr r'" by simp
      then have "map_of r' k = map_of (AList.update k' v r) k" using Cons.IH k by blast
      then show ?thesis using k by (simp add: update_conv')
    qed
  qed
qed

lemma assign_all_row:
  "assign_all fs r = Inr r' \<Longrightarrow> distinct (map fst fs) \<Longrightarrow> (k, m) \<in> set fs \<Longrightarrow>
   \<exists>ov. m = Inr ov \<and> map_of r' k = (case ov of None \<Rightarrow> map_of r k | Some v \<Rightarrow> Some v)"
proof (induction fs arbitrary: r)
  case Nil
  then show ?case by simp
next
  case (Cons f fs)
  obtain k' m' where f: "f = (k', m')" by (cases f)
  from Cons.prems(2) have d: "k' \<notin> fst ` set fs" "distinct (map fst fs)" by (auto simp: f)
  from Cons.prems(1) f obtain ov' where m': "m' = Inr ov'" by (cases m') auto
  define r1 where "r1 = (case ov' of None \<Rightarrow> r | Some v \<Rightarrow> AList.update k' v r)"
  from Cons.prems(1) f m' have run: "assign_all fs r1 = Inr r'"
    by (cases ov') (auto simp: r1_def)
  show ?case
  proof (cases "(k, m) = (k', m')")
    case True
    have "map_of r' k' = map_of r1 k'" using assign_all_untouched [OF run d(1)] .
    then show ?thesis using True m' by (cases ov') (auto simp: r1_def update_conv')
  next
    case False
    with Cons.prems(3) f have mem: "(k, m) \<in> set fs" by auto
    then have "k \<noteq> k'" using d(1) by force
    from Cons.IH [OF run d(2) mem] obtain ov where
      ov: "m = Inr ov" "map_of r' k = (case ov of None \<Rightarrow> map_of r1 k | Some v \<Rightarrow> Some v)" by blast
    have "map_of r1 k = map_of r k" using \<open>k \<noteq> k'\<close> by (cases ov') (auto simp: r1_def update_conv')
    with ov show ?thesis by (cases ov) auto
  qed
qed

lemma assign_all_first_error:
  "\<forall>f \<in> set pre. \<not> isl (snd f) \<Longrightarrow> assign_all (pre @ (k, Inl e) # post) r = Inl e"
proof (induction pre arbitrary: r)
  case Nil
  then show ?case by simp
next
  case (Cons f pre)
  obtain k' m where f: "f = (k', m)" by (cases f)
  with Cons.prems obtain ov where "m = Inr ov" by (cases m) auto
  then show ?case using Cons f by (cases ov) auto
qed

lemma assign_all_ok_rows: "assign_all fs r0 = Inr r \<Longrightarrow> \<forall>f\<in>set fs. \<not> isl (snd f)"
proof (induction fs arbitrary: r0)
  case Nil
  then show ?case by simp
next
  case (Cons f fs)
  obtain k m where f: "f = (k, m)" by (cases f)
  from Cons.prems f obtain ov where m: "m = Inr ov" by (cases m) auto
  from Cons.prems f m obtain r1 where "assign_all fs r1 = Inr r"
    by (cases ov) auto
  from Cons.IH [OF this] f m show ?case by simp
qed

lemma assign_all_keys:
  "assign_all fs r0 = Inr r \<Longrightarrow> k \<in> fst ` set r \<Longrightarrow>
   k \<in> fst ` set r0 \<or> (\<exists>v. (k, Inr (Some v)) \<in> set fs)"
proof (induction fs arbitrary: r0)
  case Nil
  then show ?case by simp
next
  case (Cons f fs)
  obtain k' m where f: "f = (k', m)" by (cases f)
  from Cons.prems(1) f obtain ov where m: "m = Inr ov" by (cases m) auto
  show ?case
  proof (cases ov)
    case None
    with Cons.prems f m have "assign_all fs r0 = Inr r" by simp
    from Cons.IH [OF this Cons.prems(2)] show ?thesis by auto
  next
    case (Some v)
    with Cons.prems f m have "assign_all fs (AList.update k' v r0) = Inr r" by simp
    from Cons.IH [OF this Cons.prems(2)]
    show ?thesis using f m Some by (auto simp: dom_update)
  qed
qed

lemma request_fields_distinct: "distinct (map fst (request_fields chk kwargs))"
  by (simp add: request_fields_def)

lemma build_row:
  assumes "build_creation_or_update_request chk kwargs = Inr r"
    and "(k, m) \<in> set (request_fields chk kwargs)"
  shows "\<exists>ov. m = Inr ov \<and> map_of r k = ov"
proof -
  from assms(1) have run: "assign_all (request_fields chk kwargs) [] = Inr r"
    by (simp add: build_creation_or_update_request_def)
  from assign_all_row [OF run request_fields_distinct assms(2)]
  show ?thesis by (auto split: option.splits)
qed

lemma build_fails_at:
  assumes "build_creation_or_update_request chk kw = Inr r"
    and "request_fields chk kw' = take i (request_fields chk kw) @ (k, Inl e) # post"
  shows "build_creation_or_update_request chk kw' = Inl e"
proof -
  from assms(1) have "assign_all (request_fields chk kw) [] = Inr r"
    by (simp add: build_creation_or_update_request_def)
  from assign_all_ok_rows [OF this]
  have "\<forall>f\<in>set (take i (request_fields chk kw)). \<not> isl (snd f)"
    by (meson in_set_takeD)
  from assign_all_first_error [OF this] assms(2) show ?thesis
    by (simp add: build_creation_or_update_request_def)
qed

lemmas field_defs = name_field_def type_field_def
   description_field_def repository_field_def zone_field_def dhcpTracking_field_def classifyMitigatedAge_field_def
   schedule_field_def reports_field_def assets_field_def credentials_field_def emailOnLaunch_field_def
   emailOnFinish_field_def timeoutAction_field_def scanningVirtualHosts_field_def rolloverType_field_def
   urlList_field_def maxScanTime_field_def

lemmas eval_defs =
  build_creation_or_update_request_def request_fields_def field_defs check_def assigned_def
  bindE_def collection_def report_entry_def asset_entry_def credential_entry_def seq_index_def
  schedule_types_def report_sources_def timeout_actions_def rollover_types_def
  to_boolean_string_def py_str_def dec_int_def dec_nat.simps digit_char_def

lemma request_fields_restrict:
  "request_fields chk (kwargs |` set recognized_keys) = request_fields chk kwargs"
  by (simp add: request_fields_def field_defs recognized_keys_def restrict_map_def)

subsection \<open>Comprehensions and collections\<close>

lemma mapE_all2: "mapE f xs = Inr ys \<Longrightarrow> list_all2 (\<lambda>x y. f x = Inr y) xs ys"
  by (induction xs arbitrary: ys) (auto split: sum.splits)

lemma mapE_results: "mapE f xs = Inr ys \<Longrightarrow> y \<in> set ys \<Longrightarrow> \<exists>x\<in>set xs. f x = Inr y"
  by (induction xs arbitrary: ys) (auto split: sum.splits)

lemma py_len_iter: "py_len v = Inr n \<Longrightarrow> \<exists>items. py_iter v = Inr items \<and> length items = n"
  by (cases v) auto

lemma collection_Some:
  assumes "collection entry v = Inr (Some out)"
  shows "\<exists>items ys. py_iter v = Inr items \<and> items \<noteq> [] \<and> mapE entry items = Inr ys \<and> out = PList ys"
proof -
  from assms obtain n where n: "py_len v = Inr n"
    by (cases "py_len v") (auto simp: collection_def bindE_def)
  from py_len_iter [OF n] obtain items where it: "py_iter v = Inr items" "length items = n"
    by blast
  from assms n it have "n > 0"
    by (cases "n > 0") (auto simp: collection_def bindE_def)
  with assms n it show ?thesis
    by (cases "mapE entry items") (auto simp: collection_def bindE_def)
qed



lemma collection_list:
  assumes "collection entry (PList xs) = Inr ov" "xs \<noteq> []"
  shows "\<exists>ys. ov = Some (PList ys) \<and> list_all2 (\<lambda>x y. entry x = Inr y) xs ys"
  using assms mapE_all2 [of entry xs]
  by (cases "mapE entry xs") (auto simp: collection_def bindE_def)

lemma report_entry_shape:
  assumes "validator chk" "report_entry chk x = Inr y"
  shows "\<exists>n s. py_index x 0 = Inr (PInt n) \<and> py_index x 1 = Inr (PStr s) \<and> s \<in> set report_sources
        \<and> y = PDict [(''id'', PInt n), (''reportSource'', PStr s)]"
proof -
  from assms(2) obtain r0 where r0: "py_index x 0 = Inr r0"
    by (cases "py_index x 0") (auto simp: report_entry_def bindE_def)
  from assms(2) r0 obtain rid where rid: "chk ''report_id'' r0 TInt None = Inr rid"
    by (cases "chk ''report_id'' r0 TInt None") (auto simp: report_entry_def bindE_def)
  from assms(2) r0 rid obtain r1 where r1: "py_index x 1 = Inr r1"
    by (cases "py_index x 1") (auto simp: report_entry_def bindE_def)
  from assms(2) r0 rid r1 obtain src where
    src: "chk ''reportSource'' r1 TStr (Some report_sources) = Inr src"
    by (cases "chk ''reportSource'' r1 TStr (Some report_sources)")
       (auto simp: report_entry_def bindE_def)
  from assms(2) r0 rid r1 src have y: "y = PDict [(''id'', rid), (''reportSource'', src)]"
    by (simp add: report_entry_def bindE_def)
  from validator_Inr [OF assms(1) rid] obtain n where "rid = PInt n" "r0 = PInt n"
    using accepts_int by blast
  moreover from validator_Inr [OF assms(1) src] obtain s where
    "src = PStr s" "r1 = PStr s" "s \<in> set report_sources"
    using accepts_choice by blast
  ultimately show ?thesis using r0 r1 y by blast
qed

lemma asset_entry_shape:
  assumes "validator chk" "asset_entry chk x = Inr y"
  shows "\<exists>n. x = PInt n \<and> y = PDict [(''id'', PInt n)]"
proof -
  from assms(2) obtain a where a: "chk ''asset'' x TInt None = Inr a"
    by (cases "chk ''asset'' x TInt None") (auto simp: asset_entry_def bindE_def)
  from validator_Inr [OF assms(1) a] accepts_int obtain n where "a = PInt n" "x = PInt n"
    by blast
  with assms(2) a show ?thesis by (simp add: asset_entry_def bindE_def)
qed

lemma credential_entry_shape:
  assumes "validator chk" "credential_entry chk x = Inr y"
  shows "\<exists>n. x = PInt n \<and> y = PDict [(''id'', PInt n)]"
proof -
  from assms(2) obtain a where a: "chk ''credentials'' x TInt None = Inr a"
    by (cases "chk ''credentials'' x TInt None") (auto simp: credential_entry_def bindE_def)
  from validator_Inr [OF assms(1) a] accepts_int obtain n where "a = PInt n" "x = PInt n"
    by blast
  with assms(2) a show ?thesis by (simp add: credential_entry_def bindE_def)
qed

lemma report_entry_tuple:
  "report_entry check (report_tuple p) =
     (if snd p \<in> set report_sources
      then Inr (PDict [(''id'', PInt (fst p)), (''reportSource'', PStr (snd p))])
      else Inl (UnexpectedValueError ''reportSource'' report_sources))"
  by (auto simp: report_entry_def report_tuple_def seq_index_def bindE_def check_def)

lemma mapE_report_tuples:
  "\<exists>p\<in>set ps. snd p \<notin> set report_sources \<Longrightarrow>
   mapE (report_entry check) (map report_tuple ps)
     = Inl (UnexpectedValueError ''reportSource'' report_sources)"
proof (induction ps)
  case Nil
  then show ?case by simp
next
  case (Cons p ps)
  show ?case
  proof (cases "snd p \<in> set report_sources")
    case False
    then show ?thesis by (simp add: report_entry_tuple)
  next
    case True
    with Cons.prems have "\<exists>p\<in>set ps. snd p \<notin> set report_sources" by auto
    from Cons.IH [OF this] True show ?thesis by (simp add: report_entry_tuple)
  qed
qed

subsection \<open>The keys of a returned request\<close>

lemma name_rows:
  "(''name'', name_field chk kwargs) \<in> set (request_fields chk kwargs)"
  by (simp add: request_fields_def)

lemma build_name_absent:
  "kwargs ''name'' = None \<Longrightarrow>
   build_creation_or_update_request chk kwargs = Inl (KeyError (PStr ''name''))"
  by (simp add: build_creation_or_update_request_def request_fields_def name_field_def)

lemma build_name_falsy:
  assumes "kwargs ''name'' = Some v" "\<not> py_truthy v"
    and "build_creation_or_update_request chk kwargs = Inr r"
  shows "map_of r ''name'' = None"
  using build_row [OF assms(3) name_rows] assms(1,2)
  by (simp add: name_field_def)

lemma build_only_empty_name:
  "build_creation_or_update_request chk [''name'' \<mapsto> PStr ''''] = Inr []"
  by (simp add: build_creation_or_update_request_def request_fields_def field_defs)







lemma string_rows:
  "(''repository'', repository_field kwargs) \<in> set (request_fields chk kwargs)"
  "(''zone'', zone_field kwargs) \<in> set (request_fields chk kwargs)"
  "(''classifyMitigatedAge'', classifyMitigatedAge_field kwargs) \<in> set (request_fields chk kwargs)"
  "(''maxScanTime'', maxScanTime_field kwargs) \<in> set (request_fields chk kwargs)"
  by (simp_all add: request_fields_def)

lemma build_repository:
  assumes "build_creation_or_update_request chk kwargs = Inr r"
  shows "map_of r ''repository'' =
           map_option (\<lambda>v. PDict [(''id'', PStr (py_str v))]) (kwargs ''repository_id'')"
  using build_row [OF assms string_rows(1)]
  by (auto simp: repository_field_def split: option.splits)

lemma build_zone:
  assumes "build_creation_or_update_request chk kwargs = Inr r"
  shows "map_of r ''zone'' = map_option (\<lambda>v. PDict [(''id'', PStr (py_str v))]) (kwargs ''zone_id'')"
  using build_row [OF assms string_rows(2)]
  by (auto simp: zone_field_def split: option.splits)

lemma build_classifyMitigatedAge:
  assumes "build_creation_or_update_request chk kwargs = Inr r"
  shows "map_of r ''classifyMitigatedAge'' =
           map_option (\<lambda>v. PStr (py_str v)) (kwargs ''classifyMitigatedAge'')"
  using build_row [OF assms string_rows(3)]
  by (auto simp: classifyMitigatedAge_field_def split: option.splits)

lemma build_maxScanTime:
  assumes "build_creation_or_update_request chk kwargs = Inr r"
  shows "map_of r ''maxScanTime'' = map_option (\<lambda>v. PStr (py_str v)) (kwargs ''maxScanTime'')"
  using build_row [OF assms string_rows(4)]
  by (auto simp: maxScanTime_field_def split: option.splits)

lemma collection_rows:
  "(''reports'', reports_field chk kwargs) \<in> set (request_fields chk kwargs)"
  "(''assets'', assets_field chk kwargs) \<in> set (request_fields chk kwargs)"
  "(''credentials'', credentials_field chk kwargs) \<in> set (request_fields chk kwargs)"
  by (simp_all add: request_fields_def)

lemma build_reports:
  assumes "build_creation_or_update_request chk kwargs = Inr r"
  shows "(case kwargs ''reports'' of None \<Rightarrow> Inr None | Some v \<Rightarrow> collection (report_entry chk) v)
           = Inr (map_of r ''reports'')"
  using build_row [OF assms collection_rows(1)] by (auto simp: reports_field_def)

lemma build_assets:
  assumes "build_creation_or_update_request chk kwargs = Inr r"
  shows "(case kwargs ''assets'' of None \<Rightarrow> Inr None | Some v \<Rightarrow> collection (asset_entry chk) v)
           = Inr (map_of r ''assets'')"
  using build_row [OF assms collection_rows(2)] by (auto simp: assets_field_def)

lemma build_credentials:
  assumes "build_creation_or_update_request chk kwargs = Inr r"
  shows "(case kwargs ''credentials'' of None \<Rightarrow> Inr None | Some v \<Rightarrow> collection (credential_entry chk) v)
           = Inr (map_of r ''credentials'')"
  using build_row [OF assms collection_rows(3)] by (auto simp: credentials_field_def)


lemma collection_case_list:
  assumes "(case inp of None \<Rightarrow> Inr None | Some v \<Rightarrow> collection entry v) = Inr out"
    and "inp = Some (PList xs)" "xs \<noteq> []"
  shows "\<exists>ys. out = Some (PList ys) \<and> list_all2 (\<lambda>x y. entry x = Inr y) xs ys"
  using assms collection_list [of entry xs out] by simp

lemma collection_case_elements:
  assumes "(case inp of None \<Rightarrow> Inr None | Some v \<Rightarrow> collection entry v) = Inr (Some x)"
  shows "\<exists>es. x = PList es \<and> (\<forall>e\<in>set es. \<exists>i. entry i = Inr e)"
proof -
  from assms obtain v where "collection entry v = Inr (Some x)"
    by (cases inp) auto
  from collection_Some [OF this] obtain items ys where
    "mapE entry items = Inr ys" "x = PList ys" by blast
  then show ?thesis using mapE_results [of entry items ys] by blast
qed

lemma reports_elements:
  assumes "validator chk" "build_creation_or_update_request chk kwargs = Inr r"
    and "map_of r ''reports'' = Some x"
  shows "\<exists>es. x = PList es
           \<and> (\<forall>e\<in>set es. \<exists>n s. e = PDict [(''id'', PInt n), (''reportSource'', PStr s)])"
proof -
  from build_reports [OF assms(2)] assms(3)
  have "(case kwargs ''reports'' of None \<Rightarrow> Inr None | Some v \<Rightarrow> collection (report_entry chk) v)
          = Inr (Some x)" by simp
  from collection_case_elements [OF this] obtain es where
    es: "x = PList es" "\<forall>e\<in>set es. \<exists>i. report_entry chk i = Inr e" by blast
  from es(2) report_entry_shape [OF assms(1)]
  have "\<forall>e\<in>set es. \<exists>n s. e = PDict [(''id'', PInt n), (''reportSource'', PStr s)]" by blast
  with es(1) show ?thesis by blast
qed

lemma assets_elements:
  assumes "validator chk" "build_creation_or_update_request chk kwargs = Inr r"
    and "map_of r ''assets'' = Some x"
  shows "\<exists>es. x = PList es \<and> (\<forall>e\<in>set es. \<exists>n. e = PDict [(''id'', PInt n)])"
proof -
  from build_assets [OF assms(2)] assms(3)
  have "(case kwargs ''assets'' of None \<Rightarrow> Inr None | Some v \<Rightarrow> collection (asset_entry chk) v)
          = Inr (Some x)" by simp
  from collection_case_elements [OF this] obtain es where
    es: "x = PList es" "\<forall>e\<in>set es. \<exists>i. asset_entry chk i = Inr e" by blast
  from es(2) asset_entry_shape [OF assms(1)]
  have "\<forall>e\<in>set es. \<exists>n. e = PDict [(''id'', PInt n)]" by blast
  with es(1) show ?thesis by blast
qed

lemma credentials_elements:
  assumes "validator chk" "build_creation_or_update_request chk kwargs = Inr r"
    and "map_of r ''credentials'' = Some x"
  shows "\<exists>es. x = PList es \<and> (\<forall>e\<in>set es. \<exists>n. e = PDict [(''id'', PInt n)])"
proof -
  from build_credentials [OF assms(2)] assms(3)
  have "(case kwargs ''credentials'' of None \<Rightarrow> Inr None | Some v \<Rightarrow> collection (credential_entry chk) v)
          = Inr (Some x)" by simp
  from collection_case_elements [OF this] obtain es where
    es: "x = PList es" "\<forall>e\<in>set es. \<exists>i. credential_entry chk i = Inr e" by blast
  from es(2) credential_entry_shape [OF assms(1)]
  have "\<forall>e\<in>set es. \<exists>n. e = PDict [(''id'', PInt n)]" by blast
  with es(1) show ?thesis by blast
qed

lemma enum_rows:
  "(''schedule'', schedule_field chk kwargs) \<in> set (request_fields chk kwargs)"
  "(''timeoutAction'', timeoutAction_field chk kwargs) \<in> set (request_fields chk kwargs)"
  "(''rolloverType'', rolloverType_field chk kwargs) \<in> set (request_fields chk kwargs)"
  by (simp_all add: request_fields_def)

lemma build_schedule:
  assumes "build_creation_or_update_request check kwargs = Inr r" "kwargs ''schedule_type'' = Some v"
  shows "(\<exists>s. v = PStr s \<and> s \<in> set schedule_types)
       \<and> map_of r ''schedule'' = Some (PDict [(''type'', v)])"
proof -
  from build_row [OF assms(1) enum_rows(1)] assms(2)
  have "bindE (check ''schedule_type'' v TStr (Some schedule_types))
          (\<lambda>t. Inr (Some (PDict [(''type'', t)]))) = Inr (map_of r ''schedule'')"
    by (auto simp: schedule_field_def)
  from check_bind_Inr [OF this] show ?thesis by auto
qed

lemma build_timeoutAction:
  assumes "build_creation_or_update_request check kwargs = Inr r" "kwargs ''timeoutAction'' = Some v"
  shows "(\<exists>s. v = PStr s \<and> s \<in> set timeout_actions) \<and> map_of r ''timeoutAction'' = Some v"
proof -
  from build_row [OF assms(1) enum_rows(2)] assms(2)
  have "bindE (check ''timeoutAction'' v TStr (Some timeout_actions)) (\<lambda>t. Inr (Some t))
          = Inr (map_of r ''timeoutAction'')"
    by (auto simp: timeoutAction_field_def assigned_def)
  from check_bind_Inr [OF this] show ?thesis by auto
qed

lemma build_rolloverType:
  assumes "build_creation_or_update_request check kwargs = Inr r" "kwargs ''rolloverType'' = Some v"
  shows "(\<exists>s. v = PStr s \<and> s \<in> set rollover_types) \<and> map_of r ''rolloverType'' = Some v"
proof -
  from build_row [OF assms(1) enum_rows(3)] assms(2)
  have "bindE (check ''rolloverType'' v TStr (Some rollover_types)) (\<lambda>t. Inr (Some t))
          = Inr (map_of r ''rolloverType'')"
    by (auto simp: rolloverType_field_def assigned_def)
  from check_bind_Inr [OF this] show ?thesis by auto
qed

lemma build_reports_sources:
  assumes "build_creation_or_update_request check kwargs = Inr r"
    and "kwargs ''reports'' = Some (PList xs)" "xs \<noteq> []"
  shows "\<exists>ys. map_of r ''reports'' = Some (PList ys)
           \<and> list_all2 (\<lambda>x y. \<exists>n s. py_index x 1 = Inr (PStr s) \<and> s \<in> set report_sources
                 \<and> y = PDict [(''id'', PInt n), (''reportSource'', PStr s)]) xs ys"
proof -
  from collection_case_list [OF build_reports [OF assms(1)] assms(2,3)] obtain ys where
    ys: "map_of r ''reports'' = Some (PList ys)"
        "list_all2 (\<lambda>x y. report_entry check x = Inr y) xs ys" by blast
  from ys(2) have "list_all2 (\<lambda>x y. \<exists>n s. py_index x 1 = Inr (PStr s) \<and> s \<in> set report_sources
                 \<and> y = PDict [(''id'', PInt n), (''reportSource'', PStr s)]) xs ys"
    by (rule list_all2_mono) (use report_entry_shape [OF validator_check] in blast)
  with ys(1) show ?thesis by blast
qed

lemma row_source:
  assumes "(k, Inr (Some v)) \<in> set (request_fields chk kwargs)"
  shows "source_key k \<in> set recognized_keys \<and> source_key k \<in> dom kwargs"
proof -
  from assms have
    "(k = ''name'' \<and> name_field chk kwargs = Inr (Some v)) \<or>
     (k = ''type'' \<and> type_field chk kwargs = Inr (Some v)) \<or>
     (k = ''description'' \<and> description_field chk kwargs = Inr (Some v)) \<or>
     (k = ''repository'' \<and> repository_field kwargs = Inr (Some v)) \<or>
     (k = ''zone'' \<and> zone_field kwargs = Inr (Some v)) \<or>
     (k = ''dhcpTracking'' \<and> dhcpTracking_field kwargs = Inr (Some v)) \<or>
     (k = ''classifyMitigatedAge'' \<and> classifyMitigatedAge_field kwargs = Inr (Some v)) \<or>
     (k = ''schedule'' \<and> schedule_field chk kwargs = Inr (Some v)) \<or>
     (k = ''reports'' \<and> reports_field chk kwargs = Inr (Some v)) \<or>
     (k = ''assets'' \<and> assets_field chk kwargs = Inr (Some v)) \<or>
     (k = ''credentials'' \<and> credentials_field chk kwargs = Inr (Some v)) \<or>
     (k = ''emailOnLaunch'' \<and> emailOnLaunch_field kwargs = Inr (Some v)) \<or>
     (k = ''emailOnFinish'' \<and> emailOnFinish_field kwargs = Inr (Some v)) \<or>
     (k = ''timeoutAction'' \<and> timeoutAction_field chk kwargs = Inr (Some v)) \<or>
     (k = ''scanningVirtualHosts'' \<and> scanningVirtualHosts_field kwargs = Inr (Some v)) \<or>
     (k = ''rolloverType'' \<and> rolloverType_field chk kwargs = Inr (Some v)) \<or>
     (k = ''urlList'' \<and> urlList_field chk kwargs = Inr (Some v)) \<or>
     (k = ''maxScanTime'' \<and> maxScanTime_field kwargs = Inr (Some v))"
    unfolding request_fields_def by (simp only: list.set insert_iff empty_iff prod.inject simp_thms) metis
  then show ?thesis
  proof (elim disjE conjE)
    assume "k = ''name''" "name_field chk kwargs = Inr (Some v)"
    then show ?thesis
      by (simp add: name_field_def source_key_def recognized_keys_def dom_def split: option.splits)
  next
    assume "k = ''type''" "type_field chk kwargs = Inr (Some v)"
    then show ?thesis
      by (simp add: type_field_def source_key_def recognized_keys_def dom_def split: option.splits)
  next
    assume "k = ''description''" "description_field chk kwargs = Inr (Some v)"
    then show ?thesis
      by (simp add: description_field_def source_key_def recognized_keys_def dom_def split: option.splits)
  next
    assume "k = ''repository''" "repository_field kwargs = Inr (Some v)"
    then show ?thesis
      by (simp add: repository_field_def source_key_def recognized_keys_def dom_def split: option.splits)
  next
    assume "k = ''zone''" "zone_field kwargs = Inr (Some v)"
    then show ?thesis
      by (simp add: zone_field_def source_key_def recognized_keys_def dom_def split: option.splits)
  next
    assume "k = ''dhcpTracking''" "dhcpTracking_field kwargs = Inr (Some v)"
    then show ?thesis
      by (simp add: dhcpTracking_field_def source_key_def recognized_keys_def dom_def split: option.splits)
  next
    assume "k = ''classifyMitigatedAge''" "classifyMitigatedAge_field kwargs = Inr (Some v)"
    then show ?thesis
      by (simp add: classifyMitigatedAge_field_def source_key_def recognized_keys_def dom_def split: option.splits)
  next
    assume "k = ''schedule''" "schedule_field chk kwargs = Inr (Some v)"
    then show ?thesis
      by (simp add: schedule_field_def source_key_def recognized_keys_def dom_def split: option.splits)
  next
    assume "k = ''reports''" "reports_field chk kwargs = Inr (Some v)"
    then show ?thesis
      by (simp add: reports_field_def source_key_def recognized_keys_def dom_def split: option.splits)
  next
    assume "k = ''assets''" "assets_field chk kwargs = Inr (Some v)"
    then show ?thesis
      by (simp add: assets_field_def source_key_def recognized_keys_def dom_def split: option.splits)
  next
    assume "k = ''credentials''" "credentials_field chk kwargs = Inr (Some v)"
    then show ?thesis
      by (simp add: credentials_field_def source_key_def recognized_keys_def dom_def split: option.splits)
  next
    assume "k = ''emailOnLaunch''" "emailOnLaunch_field kwargs = Inr (Some v)"
    then show ?thesis
      by (simp add: emailOnLaunch_field_def source_key_def recognized_keys_def dom_def split: option.splits)
  next
    assume "k = ''emailOnFinish''" "emailOnFinish_field kwargs = Inr (Some v)"
    then show ?thesis
      by (simp add: emailOnFinish_field_def source_key_def recognized_keys_def dom_def split: option.splits)
  next
    assume "k = ''timeoutAction''" "timeoutAction_field chk kwargs = Inr (Some v)"
    then show ?thesis
      by (simp add: timeoutAction_field_def source_key_def recognized_keys_def dom_def split: option.splits)
  next
    assume "k = ''scanningVirtualHosts''" "scanningVirtualHosts_field kwargs = Inr (Some v)"
    then show ?thesis
      by (simp add: scanningVirtualHosts_field_def source_key_def recognized_keys_def dom_def split: option.splits)
  next
    assume "k = ''rolloverType''" "rolloverType_field chk kwargs = Inr (Some v)"
    then show ?thesis
      by (simp add: rolloverType_field_def source_key_def recognized_keys_def dom_def split: option.splits)
  next
    assume "k = ''urlList''" "urlList_field chk kwargs = Inr (Some v)"
    then show ?thesis
      by (simp add: urlList_field_def source_key_def recognized_keys_def dom_def split: option.splits)
  next
    assume "k = ''maxScanTime''" "maxScanTime_field kwargs = Inr (Some v)"
    then show ?thesis
      by (simp add: maxScanTime_field_def source_key_def recognized_keys_def dom_def split: option.splits)
  qed
qed

subsection \<open>Refused values\<close>

lemma schedule_type_refused:
  assumes "build_creation_or_update_request check kwargs = Inr r" "v \<notin> PStr ` set schedule_types"
  shows "build_creation_or_update_request check (kwargs(''schedule_type'' \<mapsto> v))
           = Inl (enum_error ''schedule_type'' schedule_types v)"
proof (rule build_fails_at [OF assms(1)])
  show "request_fields check (kwargs(''schedule_type'' \<mapsto> v)) =
          take 7 (request_fields check kwargs)
          @ (''schedule'', Inl (enum_error ''schedule_type'' schedule_types v))
          # drop 8 (request_fields check kwargs)"
    by (simp add: request_fields_def field_defs bindE_def check_refuses [OF assms(2)])
qed

lemma timeoutAction_refused:
  assumes "build_creation_or_update_request check kwargs = Inr r" "v \<notin> PStr ` set timeout_actions"
  shows "build_creation_or_update_request check (kwargs(''timeoutAction'' \<mapsto> v))
           = Inl (enum_error ''timeoutAction'' timeout_actions v)"
proof (rule build_fails_at [OF assms(1)])
  show "request_fields check (kwargs(''timeoutAction'' \<mapsto> v)) =
          take 13 (request_fields check kwargs)
          @ (''timeoutAction'', Inl (enum_error ''timeoutAction'' timeout_actions v))
          # drop 14 (request_fields check kwargs)"
    by (simp add: request_fields_def field_defs assigned_def bindE_def check_refuses [OF assms(2)])
qed

lemma rolloverType_refused:
  assumes "build_creation_or_update_request check kwargs = Inr r" "v \<notin> PStr ` set rollover_types"
  shows "build_creation_or_update_request check (kwargs(''rolloverType'' \<mapsto> v))
           = Inl (enum_error ''rolloverType'' rollover_types v)"
proof (rule build_fails_at [OF assms(1)])
  show "request_fields check (kwargs(''rolloverType'' \<mapsto> v)) =
          take 15 (request_fields check kwargs)
          @ (''rolloverType'', Inl (enum_error ''rolloverType'' rollover_types v))
          # drop 16 (request_fields check kwargs)"
    by (simp add: request_fields_def field_defs assigned_def bindE_def check_refuses [OF assms(2)])
qed

lemma reports_refused:
  assumes "build_creation_or_update_request check kwargs = Inr r"
    and "\<exists>p\<in>set ps. snd p \<notin> set report_sources"
  shows "build_creation_or_update_request check (kwargs(''reports'' \<mapsto> PList (map report_tuple ps)))
           = Inl (UnexpectedValueError ''reportSource'' report_sources)"
proof (rule build_fails_at [OF assms(1)])
  from assms(2) have ne: "ps \<noteq> []" by auto
  show "request_fields check (kwargs(''reports'' \<mapsto> PList (map report_tuple ps))) =
          take 8 (request_fields check kwargs)
          @ (''reports'', Inl (UnexpectedValueError ''reportSource'' report_sources))
          # drop 9 (request_fields check kwargs)"
    by (simp add: request_fields_def field_defs collection_def bindE_def ne
          mapE_report_tuples [OF assms(2)])
qed

lemma enum_error_str: "enum_error name cs (PStr s) = UnexpectedValueError name cs"
  by (simp add: enum_error_def)

subsection \<open>Accepted values\<close>

lemma assign_all_succeeds:
  "\<forall>f \<in> set fs. \<not> isl (snd f) \<Longrightarrow> \<exists>r'. assign_all fs r = Inr r'"
proof (induction fs arbitrary: r)
  case Nil
  then show ?case by simp
next
  case (Cons f fs)
  obtain k' m where f: "f = (k', m)" by (cases f)
  with Cons.prems obtain ov where "m = Inr ov" by (cases m) auto
  then show ?case using Cons f by (cases ov) auto
qed

lemma build_succeeds_at:
  assumes "build_creation_or_update_request chk kw = Inr r"
    and "request_fields chk kw' =
           take i (request_fields chk kw) @ (k, Inr ov) # drop j (request_fields chk kw)"
  shows "\<exists>r'. build_creation_or_update_request chk kw' = Inr r'"
proof -
  from assms(1) have "assign_all (request_fields chk kw) [] = Inr r"
    by (simp add: build_creation_or_update_request_def)
  from assign_all_ok_rows [OF this]
  have ok: "\<forall>f\<in>set (request_fields chk kw). \<not> isl (snd f)" .
  have "\<forall>f\<in>set (request_fields chk kw'). \<not> isl (snd f)"
  proof
    fix f assume "f \<in> set (request_fields chk kw')"
    with assms(2) consider "f \<in> set (take i (request_fields chk kw))" | "f = (k, Inr ov)"
      | "f \<in> set (drop j (request_fields chk kw))" by auto
    then show "\<not> isl (snd f)"
    proof cases
      case 1
      with ok show ?thesis by (meson in_set_takeD)
    next
      case 2
      then show ?thesis by simp
    next
      case 3
      with ok show ?thesis by (meson in_set_dropD)
    qed
  qed
  from assign_all_succeeds [OF this] show ?thesis
    by (simp add: build_creation_or_update_request_def)
qed

lemma check_accepts_choice:
  "s \<in> set cs \<Longrightarrow> check name (PStr s) TStr (Some cs) = Inr (PStr s)"
  by (simp add: check_def)

lemma schedule_type_accepted:
  assumes "build_creation_or_update_request check kwargs = Inr r" "s \<in> set schedule_types"
  shows "\<exists>r'. build_creation_or_update_request check (kwargs(''schedule_type'' \<mapsto> PStr s)) = Inr r'
           \<and> map_of r' ''schedule'' = Some (PDict [(''type'', PStr s)])"
proof -
  have "request_fields check (kwargs(''schedule_type'' \<mapsto> PStr s)) =
          take 7 (request_fields check kwargs)
          @ (''schedule'', Inr (Some (PDict [(''type'', PStr s)])))
          # drop 8 (request_fields check kwargs)"
    by (simp add: request_fields_def field_defs bindE_def check_accepts_choice [OF assms(2)])
  from build_succeeds_at [OF assms(1) this] obtain r' where
    b: "build_creation_or_update_request check (kwargs(''schedule_type'' \<mapsto> PStr s)) = Inr r'" ..
  from build_schedule [OF b, of "PStr s"] have "map_of r' ''schedule'' = Some (PDict [(''type'', PStr s)])"
    by simp
  with b show ?thesis by blast
qed

lemma timeoutAction_accepted:
  assumes "build_creation_or_update_request check kwargs = Inr r" "s \<in> set timeout_actions"
  shows "\<exists>r'. build_creation_or_update_request check (kwargs(''timeoutAction'' \<mapsto> PStr s)) = Inr r'
           \<and> map_of r' ''timeoutAction'' = Some (PStr s)"
proof -
  have "request_fields check (kwargs(''timeoutAction'' \<mapsto> PStr s)) =
          take 13 (request_fields check kwargs)
          @ (''timeoutAction'', Inr (Some (PStr s)))
          # drop 14 (request_fields check kwargs)"
    by (simp add: request_fields_def field_defs assigned_def bindE_def
          check_accepts_choice [OF assms(2)])
  from build_succeeds_at [OF assms(1) this] obtain r' where
    b: "build_creation_or_update_request check (kwargs(''timeoutAction'' \<mapsto> PStr s)) = Inr r'" ..
  from build_timeoutAction [OF b, of "PStr s"] have "map_of r' ''timeoutAction'' = Some (PStr s)"
    by simp
  with b show ?thesis by blast
qed

lemma rolloverType_accepted:
  assumes "build_creation_or_update_request check kwargs = Inr r" "s \<in> set rollover_types"
  shows "\<exists>r'. build_creation_or_update_request check (kwargs(''rolloverType'' \<mapsto> PStr s)) = Inr r'
           \<and> map_of r' ''rolloverType'' = Some (PStr s)"
proof -
  have "request_fields check (kwargs(''rolloverType'' \<mapsto> PStr s)) =
          take 15 (request_fields check kwargs)
          @ (''rolloverType'', Inr (Some (PStr s)))
          # drop 16 (request_fields check kwargs)"
    by (simp add: request_fields_def field_defs assigned_def bindE_def
          check_accepts_choice [OF assms(2)])
  from build_succeeds_at [OF assms(1) this] obtain r' where
    b: "build_creation_or_update_request check (kwargs(''rolloverType'' \<mapsto> PStr s)) = Inr r'" ..
  from build_rolloverType [OF b, of "PStr s"] have "map_of r' ''rolloverType'' = Some (PStr s)"
    by simp
  with b show ?thesis by blast
qed

lemma mapE_report_tuples_ok:
  "\<forall>p\<in>set ps. snd p \<in> set report_sources \<Longrightarrow>
   mapE (report_entry check) (map report_tuple ps) = Inr (map report_object ps)"
  by (induction ps) (simp_all add: report_entry_tuple report_object_def)

lemma reports_accepted:
  assumes "build_creation_or_update_request check kwargs = Inr r"
    and "ps \<noteq> []" "\<forall>p\<in>set ps. snd p \<in> set report_sources"
  shows "\<exists>r'. build_creation_or_update_request check
                 (kwargs(''reports'' \<mapsto> PList (map report_tuple ps))) = Inr r'
           \<and> map_of r' ''reports'' = Some (PList (map report_object ps))"
proof -
  have c: "collection (report_entry check) (PList (map report_tuple ps))
             = Inr (Some (PList (map report_object ps)))"
    by (simp add: collection_def bindE_def assms(2) mapE_report_tuples_ok [OF assms(3)])
  have "request_fields check (kwargs(''reports'' \<mapsto> PList (map report_tuple ps))) =
          take 8 (request_fields check kwargs)
          @ (''reports'', Inr (Some (PList (map report_object ps))))
          # drop 9 (request_fields check kwargs)"
    by (simp add: request_fields_def field_defs c)
  from build_succeeds_at [OF assms(1) this] obtain r' where
    b: "build_creation_or_update_request check
          (kwargs(''reports'' \<mapsto> PList (map report_tuple ps))) = Inr r'" ..
  from build_reports [OF b] c have "map_of r' ''reports'' = Some (PList (map report_object ps))"
    by simp
  with b show ?thesis by blast
qed

subsection \<open>Sending\<close>

text \<open>
  \<^verbatim>\<open>copy\<close> with \<^verbatim>\<open>scan_id = 0\<close> and no \<^verbatim>\<open>scan_uuid\<close>: \<^verbatim>\<open>0\<close> is not \<^verbatim>\<open>None\<close>, so the guard
  passes, and \<^verbatim>\<open>0\<close> is falsy, so the \<^verbatim>\<open>else\<close> branch validates \<^verbatim>\<open>scan_uuid = None\<close>. What
  happens then is the helper's answer; the path \<^verbatim>\<open>wasScan/0/copy\<close> is never used.
\<close>

lemma copy_zero_id_uuid_branch:
  "copy api chk (PInt 0) PNone name sent =
     (case chk ''name'' name TStr None of
        Inl e \<Rightarrow> (Inl e, sent)
      | Inr n \<Rightarrow>
          (case chk ''scan_uuid'' PNone TStr None of
             Inl e \<Rightarrow> (Inl e, sent)
           | Inr u \<Rightarrow>
               send_unwrapped api
                 \<lparr>verb = POST, path = ''wasScan/None/copy'', params = None,
                  json = Some (PDict [(''name'', n), (''targetUser'', PDict [(''uuid'', u)])])\<rparr>
                 sent))"
  by (simp add: copy_def copy_request_def bindE_def api_route_def py_str_def
        split: sum.splits)

section \<open>The claims\<close>

text \<open>
  C1, as the claim states it, fails for the empty string: the guard \<^verbatim>\<open>if kwargs["name"]:\<close>
  skips a falsy name, the builder returns a request without it, and \<^verbatim>\<open>create\<close> posts
  that request.
\<close>

theorem empty_name_counterexample:
  "build_creation_or_update_request check [''name'' \<mapsto> PStr ''''] = Inr []
   \<and> create ok_api check [''name'' \<mapsto> PStr ''''] []
     = (Inr (PStr ''done''), [\<lparr>verb = POST, path = ''wasScan'', params = None, json = Some (PDict [])\<rparr>])"
  by code_simp

text \<open>
  C1, amended. When the \<^verbatim>\<open>name\<close> argument is absent the builder raises a \<^verbatim>\<open>KeyError\<close>
  for \<^verbatim>\<open>name\<close>, and \<^verbatim>\<open>create\<close> and \<^verbatim>\<open>edit\<close> fail with it without sending a request. A
  falsy name, such as the empty string, is not rejected: a request the builder returns
  for it has no \<^verbatim>\<open>name\<close> key, and for the empty string alone the builder returns the
  empty request. This holds for every helper.
\<close>

theorem name_absent_fails_falsy_dropped:
  "(kwargs ''name'' = None \<longrightarrow>
      build_creation_or_update_request chk kwargs = Inl (KeyError (PStr ''name''))
    \<and> create api chk kwargs sent = (Inl (KeyError (PStr ''name'')), sent)
    \<and> edit api chk scan_id kwargs sent = (Inl (KeyError (PStr ''name'')), sent))
   \<and> (\<forall>v r. kwargs ''name'' = Some v \<and> \<not> py_truthy v
          \<and> build_creation_or_update_request chk kwargs = Inr r \<longrightarrow> map_of r ''name'' = None)
   \<and> build_creation_or_update_request chk [''name'' \<mapsto> PStr ''''] = Inr []"
  using build_name_falsy [of kwargs _ chk]
  by (auto simp: build_name_absent build_only_empty_name create_def edit_def)

theorem name_absent_fails_falsy_dropped_witness:
  "build_creation_or_update_request check Map.empty = Inl (KeyError (PStr ''name''))
   \<and> create ok_api check Map.empty [] = (Inl (KeyError (PStr ''name'')), [])
   \<and> edit ok_api check (PInt 1) Map.empty [] = (Inl (KeyError (PStr ''name'')), [])
   \<and> build_creation_or_update_request check [''name'' \<mapsto> PStr ''''] = Inr []
   \<and> map_of ([] :: request) ''name'' = None"
  using name_absent_fails_falsy_dropped [of Map.empty check ok_api "[]" "PInt 1"]
  by simp

text \<open>
  C2. With the helper as the spec describes it, and for an input the builder accepts:
  setting \<^verbatim>\<open>schedule_type\<close> to one of \<^verbatim>\<open>ical\<close>, \<^verbatim>\<open>never\<close>, \<^verbatim>\<open>rollover\<close>, \<^verbatim>\<open>template\<close>,
  \<^verbatim>\<open>timeoutAction\<close> to one of \<^verbatim>\<open>discard\<close>, \<^verbatim>\<open>import\<close>, \<^verbatim>\<open>rollover\<close>, or \<^verbatim>\<open>rolloverType\<close> to
  \<^verbatim>\<open>nextDay\<close> or \<^verbatim>\<open>template\<close> is accepted and the value stands unchanged in the request
  (\<^verbatim>\<open>schedule_type\<close> under \<^verbatim>\<open>schedule.type\<close>); a non-empty list of (id, source) tuples
  whose sources are among \<^verbatim>\<open>cumulative\<close>, \<^verbatim>\<open>patched\<close>, \<^verbatim>\<open>individual\<close>, \<^verbatim>\<open>lce\<close>, \<^verbatim>\<open>archive\<close>,
  \<^verbatim>\<open>mobile\<close> is accepted as \<^verbatim>\<open>reports\<close> and each source stands unchanged in its object.
  Setting one of the three arguments to a value outside its set makes the builder raise
  the validation error of that field, which names the field and, for a string, is the
  unexpected-value error carrying the allowed set; a list of tuples with a source outside
  the set makes it raise the unexpected-value error that names \<^verbatim>\<open>reportSource\<close>. And in
  every request the builder returns, a supplied enumerated argument is a string of its
  set and stands unchanged. The error the builder raises is that of the first field that
  fails, which is why one argument is set in an otherwise accepted input.
\<close>

theorem enumerated_fields_validated:
  assumes "build_creation_or_update_request check kwargs = Inr r"
  shows "(\<forall>s \<in> {''ical'', ''never'', ''rollover'', ''template''}.
            \<exists>r'. build_creation_or_update_request check (kwargs(''schedule_type'' \<mapsto> PStr s)) = Inr r'
                \<and> map_of r' ''schedule'' = Some (PDict [(''type'', PStr s)]))
       \<and> (\<forall>s \<in> {''discard'', ''import'', ''rollover''}.
            \<exists>r'. build_creation_or_update_request check (kwargs(''timeoutAction'' \<mapsto> PStr s)) = Inr r'
                \<and> map_of r' ''timeoutAction'' = Some (PStr s))
       \<and> (\<forall>s \<in> {''nextDay'', ''template''}.
            \<exists>r'. build_creation_or_update_request check (kwargs(''rolloverType'' \<mapsto> PStr s)) = Inr r'
                \<and> map_of r' ''rolloverType'' = Some (PStr s))
       \<and> (\<forall>ps. ps \<noteq> [] \<and> (\<forall>p\<in>set ps. snd p \<in>
                 {''cumulative'', ''patched'', ''individual'', ''lce'', ''archive'', ''mobile''}) \<longrightarrow>
            (\<exists>r'. build_creation_or_update_request check
                     (kwargs(''reports'' \<mapsto> PList (map report_tuple ps))) = Inr r'
                \<and> map_of r' ''reports'' = Some (PList (map report_object ps))))
       \<and> (\<forall>v. v \<notin> PStr ` {''ical'', ''never'', ''rollover'', ''template''} \<longrightarrow>
            build_creation_or_update_request check (kwargs(''schedule_type'' \<mapsto> v))
              = Inl (enum_error ''schedule_type'' [''ical'', ''never'', ''rollover'', ''template''] v))
       \<and> (\<forall>v. v \<notin> PStr ` {''discard'', ''import'', ''rollover''} \<longrightarrow>
            build_creation_or_update_request check (kwargs(''timeoutAction'' \<mapsto> v))
              = Inl (enum_error ''timeoutAction'' [''discard'', ''import'', ''rollover''] v))
       \<and> (\<forall>v. v \<notin> PStr ` {''nextDay'', ''template''} \<longrightarrow>
            build_creation_or_update_request check (kwargs(''rolloverType'' \<mapsto> v))
              = Inl (enum_error ''rolloverType'' [''nextDay'', ''template''] v))
       \<and> (\<forall>ps. (\<exists>p\<in>set ps. snd p \<notin>
                 {''cumulative'', ''patched'', ''individual'', ''lce'', ''archive'', ''mobile''}) \<longrightarrow>
            build_creation_or_update_request check (kwargs(''reports'' \<mapsto> PList (map report_tuple ps)))
              = Inl (UnexpectedValueError ''reportSource''
                       [''cumulative'', ''patched'', ''individual'', ''lce'', ''archive'', ''mobile'']))
       \<and> (\<forall>name cs v. error_field (enum_error name cs v) = Some name)
       \<and> (\<forall>name cs s. enum_error name cs (PStr s) = UnexpectedValueError name cs)
       \<and> (\<forall>v. kwargs ''schedule_type'' = Some v \<longrightarrow>
            v \<in> PStr ` {''ical'', ''never'', ''rollover'', ''template''}
            \<and> map_of r ''schedule'' = Some (PDict [(''type'', v)]))
       \<and> (\<forall>v. kwargs ''timeoutAction'' = Some v \<longrightarrow>
            v \<in> PStr ` {''discard'', ''import'', ''rollover''} \<and> map_of r ''timeoutAction'' = Some v)
       \<and> (\<forall>v. kwargs ''rolloverType'' = Some v \<longrightarrow>
            v \<in> PStr ` {''nextDay'', ''template''} \<and> map_of r ''rolloverType'' = Some v)
       \<and> (\<forall>xs. kwargs ''reports'' = Some (PList xs) \<and> xs \<noteq> [] \<longrightarrow>
            (\<exists>ys. map_of r ''reports'' = Some (PList ys)
               \<and> list_all2 (\<lambda>x y. \<exists>n s. py_index x 1 = Inr (PStr s)
                     \<and> s \<in> {''cumulative'', ''patched'', ''individual'', ''lce'', ''archive'', ''mobile''}
                     \<and> y = PDict [(''id'', PInt n), (''reportSource'', PStr s)]) xs ys))"
proof -
  have st: "{''ical'', ''never'', ''rollover'', ''template''} = set schedule_types"
    "[''ical'', ''never'', ''rollover'', ''template''] = schedule_types"
    by (simp_all add: schedule_types_def)
  have ta: "{''discard'', ''import'', ''rollover''} = set timeout_actions"
    "[''discard'', ''import'', ''rollover''] = timeout_actions"
    by (simp_all add: timeout_actions_def)
  have rt: "{''nextDay'', ''template''} = set rollover_types"
    "[''nextDay'', ''template''] = rollover_types"
    by (simp_all add: rollover_types_def)
  have rs: "{''cumulative'', ''patched'', ''individual'', ''lce'', ''archive'', ''mobile''}
              = set report_sources"
    "[''cumulative'', ''patched'', ''individual'', ''lce'', ''archive'', ''mobile''] = report_sources"
    by (simp_all add: report_sources_def)
  show ?thesis
    unfolding st ta rt rs
  proof (intro conjI allI impI ballI)
    fix s assume "s \<in> set schedule_types"
    then show "\<exists>r'. build_creation_or_update_request check (kwargs(''schedule_type'' \<mapsto> PStr s)) = Inr r'
                \<and> map_of r' ''schedule'' = Some (PDict [(''type'', PStr s)])"
      by (rule schedule_type_accepted [OF assms])
  next
    fix s assume "s \<in> set timeout_actions"
    then show "\<exists>r'. build_creation_or_update_request check (kwargs(''timeoutAction'' \<mapsto> PStr s)) = Inr r'
                \<and> map_of r' ''timeoutAction'' = Some (PStr s)"
      by (rule timeoutAction_accepted [OF assms])
  next
    fix s assume "s \<in> set rollover_types"
    then show "\<exists>r'. build_creation_or_update_request check (kwargs(''rolloverType'' \<mapsto> PStr s)) = Inr r'
                \<and> map_of r' ''rolloverType'' = Some (PStr s)"
      by (rule rolloverType_accepted [OF assms])
  next
    fix ps :: "(int \<times> string) list"
    assume "ps \<noteq> [] \<and> (\<forall>p\<in>set ps. snd p \<in> set report_sources)"
    then show "\<exists>r'. build_creation_or_update_request check
                     (kwargs(''reports'' \<mapsto> PList (map report_tuple ps))) = Inr r'
                \<and> map_of r' ''reports'' = Some (PList (map report_object ps))"
      using reports_accepted [OF assms] by blast
  next
    fix v assume "v \<notin> PStr ` set schedule_types"
    then show "build_creation_or_update_request check (kwargs(''schedule_type'' \<mapsto> v))
              = Inl (enum_error ''schedule_type'' schedule_types v)"
      by (rule schedule_type_refused [OF assms])
  next
    fix v assume "v \<notin> PStr ` set timeout_actions"
    then show "build_creation_or_update_request check (kwargs(''timeoutAction'' \<mapsto> v))
              = Inl (enum_error ''timeoutAction'' timeout_actions v)"
      by (rule timeoutAction_refused [OF assms])
  next
    fix v assume "v \<notin> PStr ` set rollover_types"
    then show "build_creation_or_update_request check (kwargs(''rolloverType'' \<mapsto> v))
              = Inl (enum_error ''rolloverType'' rollover_types v)"
      by (rule rolloverType_refused [OF assms])
  next
    fix ps :: "(int \<times> string) list"
    assume "\<exists>p\<in>set ps. snd p \<notin> set report_sources"
    then show "build_creation_or_update_request check (kwargs(''reports'' \<mapsto> PList (map report_tuple ps)))
              = Inl (UnexpectedValueError ''reportSource'' report_sources)"
      by (rule reports_refused [OF assms])
  next
    fix name cs v
    show "error_field (enum_error name cs v) = Some name"
      by (rule error_field_enum)
  next
    fix name cs s
    show "enum_error name cs (PStr s) = UnexpectedValueError name cs"
      by (rule enum_error_str)
  next
    fix v assume "kwargs ''schedule_type'' = Some v"
    from build_schedule [OF assms this]
    show "v \<in> PStr ` set schedule_types"
      and "map_of r ''schedule'' = Some (PDict [(''type'', v)])" by blast+
  next
    fix v assume "kwargs ''timeoutAction'' = Some v"
    from build_timeoutAction [OF assms this]
    show "v \<in> PStr ` set timeout_actions"
      and "map_of r ''timeoutAction'' = Some v" by blast+
  next
    fix v assume "kwargs ''rolloverType'' = Some v"
    from build_rolloverType [OF assms this]
    show "v \<in> PStr ` set rollover_types"
      and "map_of r ''rolloverType'' = Some v" by blast+
  next
    fix xs assume "kwargs ''reports'' = Some (PList xs) \<and> xs \<noteq> []"
    then show "\<exists>ys. map_of r ''reports'' = Some (PList ys)
               \<and> list_all2 (\<lambda>x y. \<exists>n s. py_index x 1 = Inr (PStr s) \<and> s \<in> set report_sources
                     \<and> y = PDict [(''id'', PInt n), (''reportSource'', PStr s)]) xs ys"
      using build_reports_sources [OF assms] by blast
  qed
qed

theorem enumerated_fields_validated_witness:
  "build_creation_or_update_request check [''name'' \<mapsto> PStr ''n''] = Inr [(''name'', PStr ''n'')]
   \<and> (\<exists>r'. build_creation_or_update_request check
               ([''name'' \<mapsto> PStr ''n''](''schedule_type'' \<mapsto> PStr ''ical'')) = Inr r'
          \<and> map_of r' ''schedule'' = Some (PDict [(''type'', PStr ''ical'')]))
   \<and> (\<exists>r'. build_creation_or_update_request check
               ([''name'' \<mapsto> PStr ''n''](''timeoutAction'' \<mapsto> PStr ''import'')) = Inr r'
          \<and> map_of r' ''timeoutAction'' = Some (PStr ''import''))
   \<and> (\<exists>r'. build_creation_or_update_request check
               ([''name'' \<mapsto> PStr ''n''](''rolloverType'' \<mapsto> PStr ''nextDay'')) = Inr r'
          \<and> map_of r' ''rolloverType'' = Some (PStr ''nextDay''))
   \<and> (\<exists>r'. build_creation_or_update_request check
               ([''name'' \<mapsto> PStr ''n'']
                  (''reports'' \<mapsto> PList [PTuple [PInt 1, PStr ''cumulative''], PTuple [PInt 2, PStr ''lce'']]))
             = Inr r'
          \<and> map_of r' ''reports'' =
              Some (PList [PDict [(''id'', PInt 1), (''reportSource'', PStr ''cumulative'')],
                           PDict [(''id'', PInt 2), (''reportSource'', PStr ''lce'')]]))
   \<and> build_creation_or_update_request check
       ([''name'' \<mapsto> PStr ''n''](''schedule_type'' \<mapsto> PStr ''dependent''))
     = Inl (UnexpectedValueError ''schedule_type'' [''ical'', ''never'', ''rollover'', ''template''])
   \<and> build_creation_or_update_request check
       ([''name'' \<mapsto> PStr ''n''](''timeoutAction'' \<mapsto> PStr ''bogus''))
     = Inl (UnexpectedValueError ''timeoutAction'' [''discard'', ''import'', ''rollover''])
   \<and> build_creation_or_update_request check
       ([''name'' \<mapsto> PStr ''n''](''rolloverType'' \<mapsto> PInt 3))
     = Inl (FieldTypeError ''rolloverType'')
   \<and> build_creation_or_update_request check
       ([''name'' \<mapsto> PStr ''n'']
          (''reports'' \<mapsto> PList [PTuple [PInt 1, PStr ''cumulative''], PTuple [PInt 2, PStr ''bogus'']]))
     = Inl (UnexpectedValueError ''reportSource''
              [''cumulative'', ''patched'', ''individual'', ''lce'', ''archive'', ''mobile''])"
proof -
  let ?kw = "[''name'' \<mapsto> PStr ''n'']"
  have b: "build_creation_or_update_request check ?kw = Inr [(''name'', PStr ''n'')]"
    by (simp add: eval_defs)
  note t = enumerated_fields_validated [OF b]
  note c1 = t [THEN conjunct1]
  note t2 = t [THEN conjunct2]
  note c2 = t2 [THEN conjunct1]
  note t3 = t2 [THEN conjunct2]
  note c3 = t3 [THEN conjunct1]
  note t4 = t3 [THEN conjunct2]
  note c4 = t4 [THEN conjunct1]
  note t5 = t4 [THEN conjunct2]
  note c5 = t5 [THEN conjunct1]
  note t6 = t5 [THEN conjunct2]
  note c6 = t6 [THEN conjunct1]
  note t7 = t6 [THEN conjunct2]
  note c7 = t7 [THEN conjunct1]
  note t8 = t7 [THEN conjunct2]
  note c8 = t8 [THEN conjunct1]
  have a1: "\<exists>r'. build_creation_or_update_request check (?kw(''schedule_type'' \<mapsto> PStr ''ical'')) = Inr r'
          \<and> map_of r' ''schedule'' = Some (PDict [(''type'', PStr ''ical'')])"
    by (rule c1 [THEN bspec]) simp
  have a2: "\<exists>r'. build_creation_or_update_request check (?kw(''timeoutAction'' \<mapsto> PStr ''import'')) = Inr r'
          \<and> map_of r' ''timeoutAction'' = Some (PStr ''import'')"
    by (rule c2 [THEN bspec]) simp
  have a3: "\<exists>r'. build_creation_or_update_request check (?kw(''rolloverType'' \<mapsto> PStr ''nextDay'')) = Inr r'
          \<and> map_of r' ''rolloverType'' = Some (PStr ''nextDay'')"
    by (rule c3 [THEN bspec]) simp
  have "\<exists>r'. build_creation_or_update_request check
                (?kw(''reports'' \<mapsto> PList (map report_tuple [(1, ''cumulative''), (2, ''lce'')]))) = Inr r'
           \<and> map_of r' ''reports'' = Some (PList (map report_object [(1, ''cumulative''), (2, ''lce'')]))"
    by (rule c4 [THEN spec, THEN mp]) simp
  then have a4: "\<exists>r'. build_creation_or_update_request check
               (?kw(''reports'' \<mapsto> PList [PTuple [PInt 1, PStr ''cumulative''], PTuple [PInt 2, PStr ''lce'']]))
             = Inr r'
          \<and> map_of r' ''reports'' =
              Some (PList [PDict [(''id'', PInt 1), (''reportSource'', PStr ''cumulative'')],
                           PDict [(''id'', PInt 2), (''reportSource'', PStr ''lce'')]])"
    by (simp add: report_tuple_def report_object_def)
  have "build_creation_or_update_request check (?kw(''schedule_type'' \<mapsto> PStr ''dependent''))
      = Inl (enum_error ''schedule_type'' [''ical'', ''never'', ''rollover'', ''template''] (PStr ''dependent''))"
    by (rule c5 [THEN spec, THEN mp]) simp
  then have e1: "build_creation_or_update_request check (?kw(''schedule_type'' \<mapsto> PStr ''dependent''))
     = Inl (UnexpectedValueError ''schedule_type'' [''ical'', ''never'', ''rollover'', ''template''])"
    by (simp add: enum_error_def)
  have "build_creation_or_update_request check (?kw(''timeoutAction'' \<mapsto> PStr ''bogus''))
      = Inl (enum_error ''timeoutAction'' [''discard'', ''import'', ''rollover''] (PStr ''bogus''))"
    by (rule c6 [THEN spec, THEN mp]) simp
  then have e2: "build_creation_or_update_request check (?kw(''timeoutAction'' \<mapsto> PStr ''bogus''))
     = Inl (UnexpectedValueError ''timeoutAction'' [''discard'', ''import'', ''rollover''])"
    by (simp add: enum_error_def)
  have "build_creation_or_update_request check (?kw(''rolloverType'' \<mapsto> PInt 3))
      = Inl (enum_error ''rolloverType'' [''nextDay'', ''template''] (PInt 3))"
    by (rule c7 [THEN spec, THEN mp]) auto
  then have e3: "build_creation_or_update_request check (?kw(''rolloverType'' \<mapsto> PInt 3))
     = Inl (FieldTypeError ''rolloverType'')"
    by (simp add: enum_error_def)
  have "build_creation_or_update_request check
         (?kw(''reports'' \<mapsto> PList (map report_tuple [(1, ''cumulative''), (2, ''bogus'')])))
       = Inl (UnexpectedValueError ''reportSource''
                [''cumulative'', ''patched'', ''individual'', ''lce'', ''archive'', ''mobile''])"
    by (rule c8 [THEN spec, THEN mp]) simp
  then have e4: "build_creation_or_update_request check
       (?kw(''reports'' \<mapsto> PList [PTuple [PInt 1, PStr ''cumulative''], PTuple [PInt 2, PStr ''bogus'']]))
     = Inl (UnexpectedValueError ''reportSource''
              [''cumulative'', ''patched'', ''individual'', ''lce'', ''archive'', ''mobile''])"
    by (simp add: report_tuple_def)
  from b a1 a2 a3 a4 e1 e2 e3 e4 show ?thesis by (intro conjI)
qed

text \<open>
  C3. \<^verbatim>\<open>copy\<close> called with both \<^verbatim>\<open>scan_id\<close> and \<^verbatim>\<open>scan_uuid\<close> supplied (both not
  \<^verbatim>\<open>None\<close>) or with both omitted (both \<^verbatim>\<open>None\<close>) raises a \<^verbatim>\<open>ValueError\<close>, whatever the
  helper and the server do, and the list of requests sent is unchanged: the call fails
  before any network request is made.
\<close>

theorem copy_exactly_one_of_id_uuid:
  assumes "(scan_id \<noteq> PNone \<and> scan_uuid \<noteq> PNone) \<or> (scan_id = PNone \<and> scan_uuid = PNone)"
  shows "\<exists>msg. copy api chk scan_id scan_uuid name sent = (Inl (ValueError msg), sent)"
  using assms by (simp add: copy_def)

theorem copy_exactly_one_of_id_uuid_witness:
  "(\<exists>msg. copy ok_api check (PInt 1) (PStr ''x'') (PStr ''n'') [] = (Inl (ValueError msg), []))
   \<and> (\<exists>msg. copy ok_api check PNone PNone (PStr ''n'') [] = (Inl (ValueError msg), []))"
proof
  show "\<exists>msg. copy ok_api check (PInt 1) (PStr ''x'') (PStr ''n'') [] = (Inl (ValueError msg), [])"
    by (rule copy_exactly_one_of_id_uuid) simp
  show "\<exists>msg. copy ok_api check PNone PNone (PStr ''n'') [] = (Inl (ValueError msg), [])"
    by (rule copy_exactly_one_of_id_uuid) simp
qed

text \<open>
  C4. In every request the builder returns, \<^verbatim>\<open>repository\<close> and \<^verbatim>\<open>zone\<close> are the object
  \<^verbatim>\<open>{"id": str(v)}\<close> and \<^verbatim>\<open>classifyMitigatedAge\<close> and \<^verbatim>\<open>maxScanTime\<close> are the string
  \<^verbatim>\<open>str(v)\<close> of the argument \<open>v\<close> (absent when the argument is absent), whatever the helper
  does; for an integer the string is its decimal form (reading it back gives the integer), so
  none of them is ever a number.
  With a helper that returns the values of the requested type unchanged, the \<^verbatim>\<open>id\<close> of
  every element of \<^verbatim>\<open>reports\<close>, \<^verbatim>\<open>assets\<close> and \<^verbatim>\<open>credentials\<close> is an integer.
\<close>

theorem numeric_fields_sent_as_strings:
  assumes "build_creation_or_update_request chk kwargs = Inr r"
  shows "map_of r ''repository'' = map_option (\<lambda>v. PDict [(''id'', PStr (py_str v))]) (kwargs ''repository_id'')
       \<and> map_of r ''zone'' = map_option (\<lambda>v. PDict [(''id'', PStr (py_str v))]) (kwargs ''zone_id'')
       \<and> map_of r ''classifyMitigatedAge'' = map_option (\<lambda>v. PStr (py_str v)) (kwargs ''classifyMitigatedAge'')
       \<and> map_of r ''maxScanTime'' = map_option (\<lambda>v. PStr (py_str v)) (kwargs ''maxScanTime'')
       \<and> (\<forall>n. py_str (PInt n) = dec_int n \<and> int_of_dec (dec_int n) = n)
       \<and> (validator chk \<longrightarrow>
            (\<forall>x. map_of r ''reports'' = Some x \<longrightarrow>
               (\<exists>es. x = PList es
                  \<and> (\<forall>e\<in>set es. \<exists>n s. e = PDict [(''id'', PInt n), (''reportSource'', PStr s)])))
          \<and> (\<forall>x. map_of r ''assets'' = Some x \<longrightarrow>
               (\<exists>es. x = PList es \<and> (\<forall>e\<in>set es. \<exists>n. e = PDict [(''id'', PInt n)])))
          \<and> (\<forall>x. map_of r ''credentials'' = Some x \<longrightarrow>
               (\<exists>es. x = PList es \<and> (\<forall>e\<in>set es. \<exists>n. e = PDict [(''id'', PInt n)]))))"
proof -
  have elems: "validator chk \<longrightarrow>
            (\<forall>x. map_of r ''reports'' = Some x \<longrightarrow>
               (\<exists>es. x = PList es
                  \<and> (\<forall>e\<in>set es. \<exists>n s. e = PDict [(''id'', PInt n), (''reportSource'', PStr s)])))
          \<and> (\<forall>x. map_of r ''assets'' = Some x \<longrightarrow>
               (\<exists>es. x = PList es \<and> (\<forall>e\<in>set es. \<exists>n. e = PDict [(''id'', PInt n)])))
          \<and> (\<forall>x. map_of r ''credentials'' = Some x \<longrightarrow>
               (\<exists>es. x = PList es \<and> (\<forall>e\<in>set es. \<exists>n. e = PDict [(''id'', PInt n)])))"
  proof
    assume v: "validator chk"
    show "(\<forall>x. map_of r ''reports'' = Some x \<longrightarrow>
               (\<exists>es. x = PList es
                  \<and> (\<forall>e\<in>set es. \<exists>n s. e = PDict [(''id'', PInt n), (''reportSource'', PStr s)])))
          \<and> (\<forall>x. map_of r ''assets'' = Some x \<longrightarrow>
               (\<exists>es. x = PList es \<and> (\<forall>e\<in>set es. \<exists>n. e = PDict [(''id'', PInt n)])))
          \<and> (\<forall>x. map_of r ''credentials'' = Some x \<longrightarrow>
               (\<exists>es. x = PList es \<and> (\<forall>e\<in>set es. \<exists>n. e = PDict [(''id'', PInt n)])))"
    proof (intro conjI allI impI)
      fix x assume "map_of r ''reports'' = Some x"
      then show "\<exists>es. x = PList es
                  \<and> (\<forall>e\<in>set es. \<exists>n s. e = PDict [(''id'', PInt n), (''reportSource'', PStr s)])"
        by (rule reports_elements [OF v assms])
    next
      fix x assume "map_of r ''assets'' = Some x"
      then show "\<exists>es. x = PList es \<and> (\<forall>e\<in>set es. \<exists>n. e = PDict [(''id'', PInt n)])"
        by (rule assets_elements [OF v assms])
    next
      fix x assume "map_of r ''credentials'' = Some x"
      then show "\<exists>es. x = PList es \<and> (\<forall>e\<in>set es. \<exists>n. e = PDict [(''id'', PInt n)])"
        by (rule credentials_elements [OF v assms])
    qed
  qed
  have ints: "\<forall>n. py_str (PInt n) = dec_int n \<and> int_of_dec (dec_int n) = n"
    by (simp add: py_str_int int_of_dec_dec_int)
  from build_repository [OF assms] build_zone [OF assms] build_classifyMitigatedAge [OF assms]
    build_maxScanTime [OF assms] ints elems
  show ?thesis by (intro conjI)
qed

theorem numeric_fields_sent_as_strings_witness:
  "validator check
   \<and> build_creation_or_update_request check [''name'' \<mapsto> PStr '''', ''repository_id'' \<mapsto> PInt 5]
       = Inr [(''repository'', PDict [(''id'', PStr ''5'')])]
   \<and> build_creation_or_update_request check
       [''name'' \<mapsto> PStr ''n'', ''repository_id'' \<mapsto> PInt 5, ''maxScanTime'' \<mapsto> PInt 3600,
        ''reports'' \<mapsto> PList [PTuple [PInt 1, PStr ''cumulative'']], ''assets'' \<mapsto> PList [PInt 7]]
       = Inr [(''name'', PStr ''n''), (''repository'', PDict [(''id'', PStr ''5'')]),
              (''reports'', PList [PDict [(''id'', PInt 1), (''reportSource'', PStr ''cumulative'')]]),
              (''assets'', PList [PDict [(''id'', PInt 7)]]),
              (''maxScanTime'', PStr ''3600'')]
   \<and> map_of [(''name'', PStr ''n''), (''repository'', PDict [(''id'', PStr ''5'')]),
              (''reports'', PList [PDict [(''id'', PInt 1), (''reportSource'', PStr ''cumulative'')]]),
              (''assets'', PList [PDict [(''id'', PInt 7)]]),
              (''maxScanTime'', PStr ''3600'')] ''repository''
       = Some (PDict [(''id'', PStr (dec_int 5))])
   \<and> dec_int 5 = ''5''"
proof -
  let ?kw = "[''name'' \<mapsto> PStr ''n'', ''repository_id'' \<mapsto> PInt 5, ''maxScanTime'' \<mapsto> PInt 3600,
        ''reports'' \<mapsto> PList [PTuple [PInt 1, PStr ''cumulative'']], ''assets'' \<mapsto> PList [PInt 7]]"
  let ?r = "[(''name'', PStr ''n''), (''repository'', PDict [(''id'', PStr ''5'')]),
              (''reports'', PList [PDict [(''id'', PInt 1), (''reportSource'', PStr ''cumulative'')]]),
              (''assets'', PList [PDict [(''id'', PInt 7)]]),
              (''maxScanTime'', PStr ''3600'')]"
  have b0: "build_creation_or_update_request check [''name'' \<mapsto> PStr '''', ''repository_id'' \<mapsto> PInt 5]
       = Inr [(''repository'', PDict [(''id'', PStr ''5'')])]"
    by code_simp
  have b: "build_creation_or_update_request check ?kw = Inr ?r"
    by (simp add: eval_defs)
  have d: "dec_int 5 = ''5''" by code_simp
  have k: "?kw ''repository_id'' = Some (PInt 5)" by simp
  from numeric_fields_sent_as_strings [OF b]
  have "map_of ?r ''repository'' = map_option (\<lambda>v. PDict [(''id'', PStr (py_str v))]) (?kw ''repository_id'')"
    and "py_str (PInt 5) = dec_int 5"
    by blast+
  with k have "map_of ?r ''repository'' = Some (PDict [(''id'', PStr (dec_int 5))])"
    by simp
  with validator_check b0 b d show ?thesis by blast
qed





text \<open>
  C7. With a helper that returns the values of the requested type unchanged,
  \<^verbatim>\<open>copy(scan_id=n, name=s)\<close> for a non-zero (in particular a positive) integer \<open>n\<close> posts
  to \<^verbatim>\<open>wasScan/{n}/copy\<close> the body \<^verbatim>\<open>{"name": s, "targetUser": {"id": n}}\<close>, the id a native
  integer, and \<^verbatim>\<open>copy(scan_uuid=u, name=s)\<close> posts to \<^verbatim>\<open>wasScan/{u}/copy\<close> the body
  \<^verbatim>\<open>{"name": s, "targetUser": {"uuid": u}}\<close>. Posting appends the request to the requests
  sent and returns \<^verbatim>\<open>['response']\<close> of the decoded answer.
\<close>

theorem copy_posts_request:
  assumes "validator chk"
  shows "(n \<noteq> 0 \<longrightarrow>
           copy api chk (PInt n) PNone (PStr s) sent =
             send_unwrapped api
               \<lparr>verb = POST, path = ''wasScan/'' @ dec_int n @ ''/copy'', params = None,
                json = Some (PDict [(''name'', PStr s), (''targetUser'', PDict [(''id'', PInt n)])])\<rparr>
               sent)
       \<and> copy api chk PNone (PStr u) (PStr s) sent =
             send_unwrapped api
               \<lparr>verb = POST, path = ''wasScan/'' @ u @ ''/copy'', params = None,
                json = Some (PDict [(''name'', PStr s), (''targetUser'', PDict [(''uuid'', PStr u)])])\<rparr>
               sent
       \<and> (\<forall>rq. snd (send_unwrapped api rq sent) = sent @ [rq])
       \<and> (\<forall>rq body. api rq = Inr body \<longrightarrow> fst (send_unwrapped api rq sent) = py_key body ''response'')"
proof -
  have nm: "chk ''name'' (PStr s) TStr None = Inr (PStr s)"
    by (rule validator_accept [OF assms]) (simp add: accepts_def)
  have id: "chk ''scan_id'' (PInt n) TInt None = Inr (PInt n)"
    by (rule validator_accept [OF assms]) (simp add: accepts_def)
  have uu: "chk ''scan_uuid'' (PStr u) TStr None = Inr (PStr u)"
    by (rule validator_accept [OF assms]) (simp add: accepts_def)
  show ?thesis
    by (simp add: copy_def copy_request_def bindE_def nm id uu api_route_def py_str_def
          send_unwrapped_def send_def)
qed

theorem copy_posts_request_witness:
  "validator check
   \<and> copy ok_api check (PInt 1) PNone (PStr ''n'') [] =
      (Inr (PStr ''done''),
       [\<lparr>verb = POST, path = ''wasScan/1/copy'', params = None,
         json = Some (PDict [(''name'', PStr ''n''), (''targetUser'', PDict [(''id'', PInt 1)])])\<rparr>])"
proof -
  have d: "dec_int 1 = ''1''" by code_simp
  have n: "(1::int) \<noteq> 0" by simp
  from copy_posts_request [OF validator_check, of 1 ok_api "''n''" "[]" "''u''"] n
  have "copy ok_api check (PInt 1) PNone (PStr ''n'') [] =
          send_unwrapped ok_api
            \<lparr>verb = POST, path = ''wasScan/'' @ dec_int 1 @ ''/copy'', params = None,
             json = Some (PDict [(''name'', PStr ''n''), (''targetUser'', PDict [(''id'', PInt 1)])])\<rparr> []"
    by blast
  then show ?thesis
    by (simp add: d validator_check send_unwrapped_def send_def ok_api_def bindE_def)
qed

text \<open>
  C8. \<^verbatim>\<open>delete(scan_id)\<close> sends \<^verbatim>\<open>DELETE wasScan/{scan_id}\<close> and returns what the server
  answers to that request as it is: the whole decoded body, or the transport's error.
  \<^verbatim>\<open>create\<close>, \<^verbatim>\<open>edit\<close>, \<^verbatim>\<open>list\<close> and \<^verbatim>\<open>details\<close> send their own request and return
  \<^verbatim>\<open>['response']\<close> of the body answered to it: for a body that is an object with a
  \<^verbatim>\<open>response\<close> key, only the value of that key. This holds for every server, scan id and
  helper.
\<close>

theorem delete_returns_whole_body:
  "delete api scan_id sent =
     (api \<lparr>verb = DELETE, path = ''wasScan/'' @ py_str scan_id, params = None, json = None\<rparr>,
      sent @ [\<lparr>verb = DELETE, path = ''wasScan/'' @ py_str scan_id, params = None, json = None\<rparr>])
   \<and> (\<forall>request. build_creation_or_update_request chk kwargs = Inr request \<longrightarrow>
          create api chk kwargs sent =
            (case api \<lparr>verb = POST, path = ''wasScan'', params = None, json = Some (PDict request)\<rparr> of
               Inl e \<Rightarrow> Inl e
             | Inr body \<Rightarrow> py_key body ''response'',
             sent @ [\<lparr>verb = POST, path = ''wasScan'', params = None, json = Some (PDict request)\<rparr>])
        \<and> edit api chk scan_id kwargs sent =
            (case api \<lparr>verb = PATCH, path = ''wasScan/'' @ py_str scan_id, params = None,
                        json = Some (PDict request)\<rparr> of
               Inl e \<Rightarrow> Inl e
             | Inr body \<Rightarrow> py_key body ''response'',
             sent @ [\<lparr>verb = PATCH, path = ''wasScan/'' @ py_str scan_id, params = None,
                       json = Some (PDict request)\<rparr>]))
   \<and> (\<forall>ps. fields_params chk flds = Inr ps \<longrightarrow>
          list_scans api chk flds sent =
            (case api \<lparr>verb = GET, path = ''wasScan'', params = Some ps, json = None\<rparr> of
               Inl e \<Rightarrow> Inl e
             | Inr body \<Rightarrow> py_key body ''response'',
             sent @ [\<lparr>verb = GET, path = ''wasScan'', params = Some ps, json = None\<rparr>])
        \<and> details api chk scan_id flds sent =
            (case api \<lparr>verb = GET, path = ''wasScan/'' @ py_str scan_id, params = Some ps,
                        json = None\<rparr> of
               Inl e \<Rightarrow> Inl e
             | Inr body \<Rightarrow> py_key body ''response'',
             sent @ [\<lparr>verb = GET, path = ''wasScan/'' @ py_str scan_id, params = Some ps,
                       json = None\<rparr>]))
   \<and> (\<forall>d v. map_of d ''response'' = Some v \<longrightarrow> py_key (PDict d) ''response'' = Inr v)"
  by (simp add: delete_def create_def edit_def list_scans_def details_def send_unwrapped_def
        send_def bindE_def api_route_def)

theorem delete_returns_whole_body_witness:
  "delete path_api (PInt 7) [] =
     (Inr (PDict [(''response'', PStr ''wasScan/7''), (''error_code'', PInt 0)]),
      [\<lparr>verb = DELETE, path = ''wasScan/7'', params = None, json = None\<rparr>])
   \<and> create path_api check [''name'' \<mapsto> PStr ''n''] [] =
     (Inr (PStr ''wasScan''),
      [\<lparr>verb = POST, path = ''wasScan'', params = None, json = Some (PDict [(''name'', PStr ''n'')])\<rparr>])
   \<and> edit path_api check (PInt 7) [''name'' \<mapsto> PStr ''n''] [] =
     (Inr (PStr ''wasScan/7''),
      [\<lparr>verb = PATCH, path = ''wasScan/7'', params = None, json = Some (PDict [(''name'', PStr ''n'')])\<rparr>])
   \<and> list_scans path_api check PNone [] =
     (Inr (PStr ''wasScan''), [\<lparr>verb = GET, path = ''wasScan'', params = Some [], json = None\<rparr>])
   \<and> details path_api check (PInt 7) PNone [] =
     (Inr (PStr ''wasScan/7''), [\<lparr>verb = GET, path = ''wasScan/7'', params = Some [], json = None\<rparr>])"
proof -
  have b: "build_creation_or_update_request check [''name'' \<mapsto> PStr ''n''] = Inr [(''name'', PStr ''n'')]"
    by (simp add: eval_defs)
  have f: "fields_params check PNone = Inr []" by (simp add: fields_params_def)
  have p: "py_str (PInt 7) = ''7''" by code_simp
  note t = delete_returns_whole_body [of path_api "PInt 7" "[]" check "[''name'' \<mapsto> PStr ''n'']" PNone]
  from t have d: "delete path_api (PInt 7) [] =
     (Inr (PDict [(''response'', PStr ''wasScan/7''), (''error_code'', PInt 0)]),
      [\<lparr>verb = DELETE, path = ''wasScan/7'', params = None, json = None\<rparr>])"
    by (simp add: p path_api_def)
  from t b have c: "create path_api check [''name'' \<mapsto> PStr ''n''] [] =
     (Inr (PStr ''wasScan''),
      [\<lparr>verb = POST, path = ''wasScan'', params = None, json = Some (PDict [(''name'', PStr ''n'')])\<rparr>])"
    by (simp add: path_api_def)
  from t b have e: "edit path_api check (PInt 7) [''name'' \<mapsto> PStr ''n''] [] =
     (Inr (PStr ''wasScan/7''),
      [\<lparr>verb = PATCH, path = ''wasScan/7'', params = None, json = Some (PDict [(''name'', PStr ''n'')])\<rparr>])"
    by (simp add: p path_api_def)
  from t f have l: "list_scans path_api check PNone [] =
     (Inr (PStr ''wasScan''), [\<lparr>verb = GET, path = ''wasScan'', params = Some [], json = None\<rparr>])"
    by (simp add: path_api_def)
  from t f have g: "details path_api check (PInt 7) PNone [] =
     (Inr (PStr ''wasScan/7''), [\<lparr>verb = GET, path = ''wasScan/7'', params = Some [], json = None\<rparr>])"
    by (simp add: p path_api_def)
  from d c e l g show ?thesis by (intro conjI)
qed

text \<open>
  C9. The builder consults only the enumerated arguments: restricting \<^verbatim>\<open>kwargs\<close> to them
  changes neither the request nor the error, so an unrecognised key causes no error and
  contributes nothing. Every key of a request the builder returns is built from a
  recognised argument that was supplied. This holds for every helper.
\<close>

theorem unrecognized_keys_ignored:
  "build_creation_or_update_request chk kwargs
     = build_creation_or_update_request chk (kwargs |` set recognized_keys)
   \<and> (\<forall>r k. build_creation_or_update_request chk kwargs = Inr r \<and> k \<in> fst ` set r \<longrightarrow>
          source_key k \<in> set recognized_keys \<and> source_key k \<in> dom kwargs)"
proof (rule conjI, goal_cases)
  case 1
  show ?case
    by (simp add: build_creation_or_update_request_def request_fields_restrict)
next
  case 2
  have "source_key k \<in> set recognized_keys \<and> source_key k \<in> dom kwargs"
    if a: "build_creation_or_update_request chk kwargs = Inr r \<and> k \<in> fst ` set r" for r k
  proof -
    from a have run: "assign_all (request_fields chk kwargs) [] = Inr r"
      by (simp add: build_creation_or_update_request_def)
    from assign_all_keys [OF run] a obtain v where
      "(k, Inr (Some v)) \<in> set (request_fields chk kwargs)" by auto
    then show ?thesis by (rule row_source)
  qed
  then show ?case by blast
qed

theorem unrecognized_keys_ignored_witness:
  "build_creation_or_update_request check
     [''name'' \<mapsto> PStr ''n'', ''colour'' \<mapsto> PInt 1, ''repository_id'' \<mapsto> PInt 5]
     = Inr [(''name'', PStr ''n''), (''repository'', PDict [(''id'', PStr ''5'')])]
   \<and> build_creation_or_update_request check
       ([''name'' \<mapsto> PStr ''n'', ''colour'' \<mapsto> PInt 1, ''repository_id'' \<mapsto> PInt 5] |` set recognized_keys)
     = Inr [(''name'', PStr ''n''), (''repository'', PDict [(''id'', PStr ''5'')])]
   \<and> source_key ''repository'' \<in> set recognized_keys
   \<and> source_key ''repository'' \<in> dom [''name'' \<mapsto> PStr ''n'', ''colour'' \<mapsto> PInt 1, ''repository_id'' \<mapsto> PInt 5]"
proof -
  let ?kw = "[''name'' \<mapsto> PStr ''n'', ''colour'' \<mapsto> PInt 1, ''repository_id'' \<mapsto> PInt 5]"
  let ?r = "[(''name'', PStr ''n''), (''repository'', PDict [(''id'', PStr ''5'')])]"
  have b: "build_creation_or_update_request check ?kw = Inr ?r"
    by code_simp
  have k: "''repository'' \<in> fst ` set ?r" by simp
  note u = unrecognized_keys_ignored [of check ?kw]
  from u b have "build_creation_or_update_request check (?kw |` set recognized_keys) = Inr ?r"
    by simp
  moreover from u b k
  have "source_key ''repository'' \<in> set recognized_keys \<and> source_key ''repository'' \<in> dom ?kw"
    by blast
  ultimately show ?thesis using b by blast
qed
end
